theory Spec2Isabelle
  imports Complex_Main
begin

section \<open>Values, exceptions and tables\<close>

text \<open>
  The Python exceptions that the modelled code can raise. A function that may raise
  returns \<open>error + 'a\<close>, with \<open>Inl\<close> for the exception.
\<close>

datatype error =
  AttributeError | TypeError | IndexError | KeyError | ValueError | ZeroDivisionError

text \<open>
  A table cell or a form value: a Python \<open>int\<close> or a Python \<open>str\<close>. Probabilities and
  confidences are kept apart, as \<open>real\<close> numbers; a float NaN has no counterpart here.
\<close>

datatype cell = IntC int | StrC string

definition bind_err :: "error + 'a \<Rightarrow> ('a \<Rightarrow> error + 'b) \<Rightarrow> error + 'b" where
  "bind_err m f = (case m of Inl e \<Rightarrow> Inl e | Inr x \<Rightarrow> f x)"

text \<open>Applying a function that may raise to every element, left to right; the first
  exception ends the whole pass.\<close>

fun map_err :: "('a \<Rightarrow> error + 'b) \<Rightarrow> 'a list \<Rightarrow> error + 'b list" where
  "map_err f [] = Inr []"
| "map_err f (x # xs) =
     bind_err (f x) (\<lambda>y. bind_err (map_err f xs) (\<lambda>ys. Inr (y # ys)))"

text \<open>\<open>xs[0]\<close>: IndexError on an empty sequence.\<close>

definition index0 :: "'a list \<Rightarrow> error + 'a" where
  "index0 xs = (case xs of [] \<Rightarrow> Inl IndexError | x # _ \<Rightarrow> Inr x)"

subsection \<open>\<open>str\<close> of a cell\<close>

fun str_nat :: "nat \<Rightarrow> string" where
  "str_nat n =
     (if n < 10 then [''0123456789'' ! n]
      else str_nat (n div 10) @ [''0123456789'' ! (n mod 10)])"

declare str_nat.simps [simp del]

definition str_int :: "int \<Rightarrow> string" where
  "str_int i = (if i < 0 then CHR ''-'' # str_nat (nat (- i)) else str_nat (nat i))"

text \<open>\<open>Series.astype(str)\<close>, cell by cell.\<close>

fun astype_str :: "cell \<Rightarrow> string" where
  "astype_str (IntC i) = str_int i"
| "astype_str (StrC s) = s"

subsection \<open>Data frames\<close>

text \<open>
  A \<open>pandas.DataFrame\<close>, column-major as pandas stores it: the number of rows of its
  index and the columns in order, each a label with its values. The frames built by
  \<open>pd.read_csv\<close> and \<open>pd.DataFrame([dict])\<close> have distinct labels and columns as long
  as the index (\<open>rectangular\<close>).
\<close>

record dataframe =
  nrows :: nat
  cols :: "(string \<times> cell list) list"

definition rectangular :: "dataframe \<Rightarrow> bool" where
  "rectangular df = list_all (\<lambda>(c, vs). length vs = nrows df) (cols df)"

definition columns :: "dataframe \<Rightarrow> string list" where
  "columns df = map fst (cols df)"

text \<open>\<open>df[column] = values\<close>: replaces the column where it stands, or appends a new
  one at the end.\<close>

fun set_column :: "string \<Rightarrow> cell list \<Rightarrow> (string \<times> cell list) list \<Rightarrow> (string \<times> cell list) list" where
  "set_column c vs [] = [(c, vs)]"
| "set_column c vs ((c', ws) # rest) =
     (if c' = c then (c, vs) # rest else (c', ws) # set_column c vs rest)"

text \<open>The rows of a frame, as the classifier receives them.\<close>

definition df_rows :: "dataframe \<Rightarrow> cell list list" where
  "df_rows df = map (\<lambda>i. map (\<lambda>(c, vs). vs ! i) (cols df)) [0..<nrows df]"

text \<open>\<open>df.iloc[[i]]\<close>: the one-row frame holding row \<open>i\<close>.\<close>

definition iloc :: "dataframe \<Rightarrow> nat \<Rightarrow> dataframe" where
  "iloc df i = df\<lparr>nrows := 1, cols := map (\<lambda>(c, vs). (c, [vs ! i])) (cols df)\<rparr>"

section \<open>Artifacts\<close>

text \<open>
  A fitted \<open>sklearn.preprocessing.LabelEncoder\<close>: its attribute \<open>classes_\<close>, the known
  categories in stored order. \<open>transform\<close> maps a category to its position in
  \<open>classes_\<close> and raises ValueError on a label it has not seen.
\<close>

record encoder =
  classes :: "string list"

fun index_of :: "string list \<Rightarrow> string \<Rightarrow> nat option" where
  "index_of [] s = None"
| "index_of (c # cs) s = (if c = s then Some 0 else map_option Suc (index_of cs s))"

definition transform_one :: "encoder \<Rightarrow> string \<Rightarrow> error + int" where
  "transform_one encoder s =
     (case index_of (classes encoder) s of
        None \<Rightarrow> Inl ValueError
      | Some i \<Rightarrow> Inr (int i))"

definition transform :: "encoder \<Rightarrow> string list \<Rightarrow> error + cell list" where
  "transform encoder ss = bind_err (map_err (transform_one encoder) ss) (\<lambda>codes. Inr (map IntC codes))"

text \<open>
  The classifier is an opaque artifact: \<open>predict\<close> and \<open>predict_proba\<close> take the rows
  of a frame and may raise.
\<close>

record classifier =
  predict :: "cell list list \<Rightarrow> error + int list"
  predict_proba :: "cell list list \<Rightarrow> error + real list list"

text \<open>\<open>WebModelHandler\<close>: each attribute is \<open>None\<close> until \<open>load_models\<close> has set it.
  The dict \<open>label_encoders\<close> is kept as the list of its items, in iteration order.\<close>

record handler =
  model :: "classifier option"
  label_encoders :: "(string \<times> encoder) list option"
  feature_names :: "string list option"

text \<open>
  \<open>load_models\<close>. A file of the models directory is absent, unreadable, or holds an
  object. Only the classifier's file is tested with \<open>os.path.exists\<close>; \<open>joblib.load\<close>
  raises on a file that is absent or unreadable, and the \<open>except\<close> clause returns
  \<open>False\<close> with the attributes assigned so far.
\<close>

datatype 'a stored = NoFile | Unreadable | Stored 'a

record model_files =
  model_file :: "classifier stored"
  encoders_file :: "(string \<times> encoder) list stored"
  features_file :: "string list stored"

definition load_models :: "model_files \<Rightarrow> handler \<Rightarrow> handler \<times> bool" where
  "load_models files self =
     (case model_file files of
        Stored m \<Rightarrow>
          (let self1 = self\<lparr>model := Some m\<rparr> in
           case encoders_file files of
             Stored encoders \<Rightarrow>
               (let self2 = self1\<lparr>label_encoders := Some encoders\<rparr> in
                case features_file files of
                  Stored names \<Rightarrow> (self2\<lparr>feature_names := Some names\<rparr>, True)
                | _ \<Rightarrow> (self2, False))
           | _ \<Rightarrow> (self1, False))
      | _ \<Rightarrow> (self, False))"

text \<open>The constructor \<open>__init__\<close>: every attribute \<open>None\<close>, then \<open>load_models\<close>.\<close>

definition WebModelHandler :: "model_files \<Rightarrow> handler" where
  "WebModelHandler files =
     fst (load_models files \<lparr>model = None, label_encoders = None, feature_names = None\<rparr>)"

section \<open>Preprocessing (\<open>WebModelHandler.preprocess_data\<close>)\<close>

text \<open>The lambda of the \<open>apply\<close> call: a known category stays, any other value becomes
  \<open>encoder.classes_[0]\<close>.\<close>

definition substitute_unknown :: "encoder \<Rightarrow> string \<Rightarrow> error + string" where
  "substitute_unknown encoder x =
     (if x \<in> set (classes encoder) then Inr x else index0 (classes encoder))"

text \<open>The three assignments to \<open>processed_df[column]\<close> of one loop iteration.\<close>

definition encode_column :: "encoder \<Rightarrow> cell list \<Rightarrow> error + cell list" where
  "encode_column encoder col =
     bind_err (map_err (substitute_unknown encoder) (map astype_str col))
       (transform encoder)"

fun encode_columns :: "(string \<times> encoder) list \<Rightarrow> dataframe \<Rightarrow> error + dataframe" where
  "encode_columns [] processed_df = Inr processed_df"
| "encode_columns ((column, encoder) # rest) processed_df =
     (case map_of (cols processed_df) column of
        None \<Rightarrow> encode_columns rest processed_df
      | Some col \<Rightarrow>
          bind_err (encode_column encoder col) (\<lambda>col'.
            encode_columns rest
              (processed_df\<lparr>cols := set_column column col' (cols processed_df)\<rparr>)))"

text \<open>The second loop: a feature that is no column becomes a column of zeros.\<close>

fun fill_missing :: "string list \<Rightarrow> dataframe \<Rightarrow> dataframe" where
  "fill_missing [] processed_df = processed_df"
| "fill_missing (feature # rest) processed_df =
     fill_missing rest
       (if map_of (cols processed_df) feature = None
        then processed_df\<lparr>cols := set_column feature
               (replicate (nrows processed_df) (IntC 0)) (cols processed_df)\<rparr>
        else processed_df)"

text \<open>\<open>processed_df[self.feature_names]\<close>: the named columns in the order named;
  KeyError on a name that is no column.\<close>

definition select_columns :: "string list \<Rightarrow> dataframe \<Rightarrow> error + dataframe" where
  "select_columns names df =
     bind_err
       (map_err (\<lambda>n. case map_of (cols df) n of
                        None \<Rightarrow> Inl KeyError
                      | Some col \<Rightarrow> Inr (n, col)) names)
       (\<lambda>cs. Inr (df\<lparr>cols := cs\<rparr>))"

text \<open>
  \<open>self.label_encoders.items()\<close> on \<open>None\<close> raises AttributeError, iterating over
  \<open>self.feature_names\<close> when it is \<open>None\<close> raises TypeError.
\<close>

definition preprocess_data :: "handler \<Rightarrow> dataframe \<Rightarrow> error + dataframe" where
  "preprocess_data self df =
     (case label_encoders self of
        None \<Rightarrow> Inl AttributeError
      | Some encoders \<Rightarrow>
          bind_err (encode_columns encoders df) (\<lambda>processed_df.
            case feature_names self of
              None \<Rightarrow> Inl TypeError
            | Some names \<Rightarrow> select_columns names (fill_missing names processed_df)))"

section \<open>Inference (\<open>predict_single\<close>, \<open>predict_batch\<close>)\<close>

text \<open>Python's \<open>max\<close> over one probability row, and numpy's \<open>np.max\<close> along axis 1: both
  raise ValueError on a row with no entry.\<close>

definition py_max :: "real list \<Rightarrow> error + real" where
  "py_max xs = (case xs of [] \<Rightarrow> Inl ValueError | x # ys \<Rightarrow> Inr (fold max ys x))"

definition np_max_axis1 :: "real list list \<Rightarrow> error + real list" where
  "np_max_axis1 rows = map_err py_max rows"

text \<open>Calling a method of \<open>self.model\<close> while it is \<open>None\<close> raises AttributeError.\<close>

definition the_model :: "handler \<Rightarrow> error + classifier" where
  "the_model self = (case model self of None \<Rightarrow> Inl AttributeError | Some m \<Rightarrow> Inr m)"

definition predict_single :: "handler \<Rightarrow> dataframe \<Rightarrow> error + (int \<times> real)" where
  "predict_single self df =
     bind_err (preprocess_data self df) (\<lambda>processed_data.
     bind_err (the_model self) (\<lambda>m.
     bind_err (predict m (df_rows processed_data)) (\<lambda>predictions.
     bind_err (index0 predictions) (\<lambda>prediction.
     bind_err (predict_proba m (df_rows processed_data)) (\<lambda>probas.
     bind_err (index0 probas) (\<lambda>prediction_proba.
     bind_err (py_max prediction_proba) (\<lambda>confidence.
     Inr (prediction, confidence))))))))"

definition predict_batch :: "handler \<Rightarrow> dataframe \<Rightarrow> error + (int list \<times> real list)" where
  "predict_batch self df =
     bind_err (preprocess_data self df) (\<lambda>processed_data.
     bind_err (the_model self) (\<lambda>m.
     bind_err (predict m (df_rows processed_data)) (\<lambda>predictions.
     bind_err (predict_proba m (df_rows processed_data)) (\<lambda>prediction_probas.
     bind_err (np_max_axis1 prediction_probas) (\<lambda>confidences.
     Inr (predictions, confidences))))))"

text \<open>
  What scikit-learn promises of a classifier: a batch call answers row by row, one
  result per row, each the result the row gets when it is passed alone.
\<close>

definition row_aligned :: "classifier \<Rightarrow> bool" where
  "row_aligned m \<longleftrightarrow>
     (\<forall>X ps. predict m X = Inr ps \<longrightarrow>
        length ps = length X \<and> (\<forall>i < length X. predict m [X ! i] = Inr [ps ! i])) \<and>
     (\<forall>X P. predict_proba m X = Inr P \<longrightarrow>
        length P = length X \<and> (\<forall>i < length X. predict_proba m [X ! i] = Inr [P ! i]))"

section \<open>Batch summary (\<open>show_batch_analysis\<close>, \<open>AnalyticsWindow\<close>)\<close>







subsection \<open>Risk tiers\<close>

text \<open>A row of the analysed frame: the student's columns (the extension of the
  record) joined with the two columns the prediction adds.\<close>

record scored =
  Predicted_Performance :: int
  Confidence :: real

definition high_risk :: "'a scored_scheme list \<Rightarrow> 'a scored_scheme list" where
  "high_risk df = filter (\<lambda>r. Predicted_Performance r = 0 \<and> Confidence r > 0.7) df"

definition medium_risk :: "'a scored_scheme list \<Rightarrow> 'a scored_scheme list" where
  "medium_risk df = filter (\<lambda>r. Predicted_Performance r = 0 \<and> Confidence r \<le> 0.7) df"

definition low_confidence :: "'a scored_scheme list \<Rightarrow> 'a scored_scheme list" where
  "low_confidence df = filter (\<lambda>r. Confidence r < 0.6) df"

section \<open>Recommendations (\<open>get_recommendations\<close>)\<close>

text \<open>\<open>dict.get(key, default)\<close>.\<close>

definition dict_get :: "(string \<rightharpoonup> cell) \<Rightarrow> string \<Rightarrow> cell \<Rightarrow> cell" where
  "dict_get d k dflt = (case d k of None \<Rightarrow> dflt | Some v \<Rightarrow> v)"

text \<open>Ordering against an int: comparing a \<open>str\<close> with an \<open>int\<close> raises TypeError.\<close>

fun py_lt :: "cell \<Rightarrow> int \<Rightarrow> error + bool" where
  "py_lt (IntC a) b = Inr (a < b)"
| "py_lt (StrC s) b = Inl TypeError"

fun py_gt :: "cell \<Rightarrow> int \<Rightarrow> error + bool" where
  "py_gt (IntC a) b = Inr (a > b)"
| "py_gt (StrC s) b = Inl TypeError"

text \<open>The recommendation strings, which both front-ends spell alike.\<close>

definition rec_studytime :: string where
  "rec_studytime = ''Increase weekly study time to improve academic performance''"

definition rec_failures :: string where
  "rec_failures = ''Consider additional tutoring to address past academic challenges''"

definition rec_absences :: string where
  "rec_absences = ''Improve attendance to better engage with course material''"

definition rec_schoolsup :: string where
  "rec_schoolsup = ''Consider enrolling in school support programs''"

definition rec_famsup :: string where
  "rec_famsup = ''Encourage family involvement in academic activities''"

definition rec_continue :: string where
  "rec_continue = ''Continue current study habits and maintain good attendance''"

definition rec_leadership :: string where
  "rec_leadership = ''Consider taking on leadership roles or advanced courses''"

definition rec_higher :: string where
  "rec_higher = ''Start preparing for higher education applications''"

definition rec_balance :: string where
  "rec_balance = ''Maintain a healthy balance between academics and social activities''"

definition rec_monitor :: string where
  "rec_monitor = ''Continue monitoring academic progress regularly''"

text \<open>The function \<open>get_recommendations\<close> of \<open>web_app.py\<close>.\<close>

definition get_recommendations :: "int \<Rightarrow> (string \<rightharpoonup> cell) \<Rightarrow> error + string list" where
  "get_recommendations prediction student_data =
     bind_err
       (if prediction = 0 then
          bind_err (py_lt (dict_get student_data ''studytime'' (IntC 0)) 3) (\<lambda>c1.
          bind_err (py_gt (dict_get student_data ''failures'' (IntC 0)) 0) (\<lambda>c2.
          bind_err (py_gt (dict_get student_data ''absences'' (IntC 0)) 10) (\<lambda>c3.
          Inr ((if c1 then [rec_studytime] else [])
             @ (if c2 then [rec_failures] else [])
             @ (if c3 then [rec_absences] else [])
             @ (if dict_get student_data ''schoolsup'' (StrC []) = StrC ''no''
                then [rec_schoolsup] else [])
             @ (if dict_get student_data ''famsup'' (StrC []) = StrC ''no''
                then [rec_famsup] else [])))))
        else
          Inr ([rec_continue, rec_leadership]
             @ (if dict_get student_data ''higher'' (StrC []) = StrC ''yes''
                then [rec_higher] else [])
             @ [rec_balance]))
       (\<lambda>recommendations.
          Inr (if recommendations = []
               then [rec_monitor]
               else recommendations))"

text \<open>The method \<open>PredictionWindow.get_recommendations\<close> of \<open>gui/prediction_window.py\<close>.\<close>

definition PredictionWindow_get_recommendations ::
    "int \<Rightarrow> (string \<rightharpoonup> cell) \<Rightarrow> error + string list" where
  "PredictionWindow_get_recommendations prediction student_data =
     bind_err
       (if prediction = 0 then
          bind_err (py_lt (dict_get student_data ''studytime'' (IntC 0)) 3) (\<lambda>c1.
          bind_err (py_gt (dict_get student_data ''failures'' (IntC 0)) 0) (\<lambda>c2.
          bind_err (py_gt (dict_get student_data ''absences'' (IntC 0)) 10) (\<lambda>c3.
          Inr ((if c1 then [rec_studytime] else [])
             @ (if c2 then [rec_failures] else [])
             @ (if c3 then [rec_absences] else [])
             @ (if dict_get student_data ''schoolsup'' (StrC []) = StrC ''no''
                then [rec_schoolsup] else [])
             @ (if dict_get student_data ''famsup'' (StrC []) = StrC ''no''
                then [rec_famsup] else [])))))
        else
          Inr ([rec_continue, rec_leadership]
             @ (if dict_get student_data ''higher'' (StrC []) = StrC ''yes''
                then [rec_higher] else [])
             @ [rec_balance]))
       (\<lambda>recommendations.
          Inr (if recommendations = []
               then [rec_monitor]
               else recommendations))"

section \<open>The rule table of the specification\<close>

text \<open>
  The specification's reading of the recommendation rules: a table of independent
  rules, each a condition on the predicted class and the student record with its
  message. Every rule that applies fires, in table order; the generic message stands in
  when none does. A missing numeric field counts as 0, a missing flag as the empty
  string, as the defaults of \<open>dict.get\<close> have it.
\<close>

definition int_field :: "(string \<rightharpoonup> cell) \<Rightarrow> string \<Rightarrow> int" where
  "int_field d k = (case dict_get d k (IntC 0) of IntC n \<Rightarrow> n | StrC s \<Rightarrow> 0)"

definition str_field :: "(string \<rightharpoonup> cell) \<Rightarrow> string \<Rightarrow> cell" where
  "str_field d k = dict_get d k (StrC [])"

definition numeric_fields :: "(string \<rightharpoonup> cell) \<Rightarrow> bool" where
  "numeric_fields d \<longleftrightarrow>
     list_all (\<lambda>k. case d k of Some (StrC s) \<Rightarrow> False | _ \<Rightarrow> True)
       [''studytime'', ''failures'', ''absences'']"

definition rule_table :: "((int \<Rightarrow> (string \<rightharpoonup> cell) \<Rightarrow> bool) \<times> string) list" where
  "rule_table =
     [(\<lambda>p d. p = 0 \<and> int_field d ''studytime'' < 3,
         rec_studytime),
      (\<lambda>p d. p = 0 \<and> int_field d ''failures'' > 0,
         rec_failures),
      (\<lambda>p d. p = 0 \<and> int_field d ''absences'' > 10,
         rec_absences),
      (\<lambda>p d. p = 0 \<and> str_field d ''schoolsup'' = StrC ''no'',
         rec_schoolsup),
      (\<lambda>p d. p = 0 \<and> str_field d ''famsup'' = StrC ''no'',
         rec_famsup),
      (\<lambda>p d. p \<noteq> 0,
         rec_continue),
      (\<lambda>p d. p \<noteq> 0,
         rec_leadership),
      (\<lambda>p d. p \<noteq> 0 \<and> str_field d ''higher'' = StrC ''yes'',
         rec_higher),
      (\<lambda>p d. p \<noteq> 0,
         rec_balance)]"

definition fired :: "int \<Rightarrow> (string \<rightharpoonup> cell) \<Rightarrow> string list" where
  "fired p d = map snd (filter (\<lambda>(applies, msg). applies p d) rule_table)"

definition all_rules_fire :: "int \<Rightarrow> (string \<rightharpoonup> cell) \<Rightarrow> string list" where
  "all_rules_fire p d =
     (if fired p d = [] then [rec_monitor]
      else fired p d)"

section \<open>Example inputs\<close>

text \<open>The student of the specification's end-to-end example, and one for whom no
  rule of class 0 applies.\<close>

definition example_student :: "string \<rightharpoonup> cell" where
  "example_student =
     [''studytime'' \<mapsto> IntC 2, ''failures'' \<mapsto> IntC 0, ''absences'' \<mapsto> IntC 6,
      ''schoolsup'' \<mapsto> StrC ''yes'', ''famsup'' \<mapsto> StrC ''no'',
      ''G1'' \<mapsto> IntC 5, ''G2'' \<mapsto> IntC 6]"

definition diligent_student :: "string \<rightharpoonup> cell" where
  "diligent_student =
     [''studytime'' \<mapsto> IntC 3, ''failures'' \<mapsto> IntC 0, ''absences'' \<mapsto> IntC 2,
      ''schoolsup'' \<mapsto> StrC ''yes'', ''famsup'' \<mapsto> StrC ''yes'']"

text \<open>
  Artifacts and a two-row frame: \<open>school\<close> holds a known and an unknown category,
  \<open>famsup\<close> is missing and \<open>name\<close> is extra; \<open>example_processed\<close> is what
  preprocessing makes of it. The classifier rejects a row that holds a string, as
  scikit-learn does, and decides by the fourth feature. In \<open>bad_first\<close> and
  \<open>bad_second\<close> a string stands in the numeric column \<open>age\<close>, in row 0 and in row 1.
\<close>

definition example_encoders :: "(string \<times> encoder) list" where
  "example_encoders =
     [(''school'', \<lparr>classes = [''GP'', ''MS'']\<rparr>), (''famsup'', \<lparr>classes = [''no'', ''yes'']\<rparr>)]"

definition example_features :: "string list" where
  "example_features = [''school'', ''age'', ''famsup'', ''studytime'', ''absences'']"

definition numeric_row :: "cell list \<Rightarrow> bool" where
  "numeric_row row = list_all (\<lambda>c. case c of IntC n \<Rightarrow> True | StrC s \<Rightarrow> False) row"

definition row_class :: "cell list \<Rightarrow> int" where
  "row_class row = (case row of [s, a, f, IntC t, b] \<Rightarrow> (if t < 3 then 0 else 1) | _ \<Rightarrow> 1)"

definition row_proba :: "cell list \<Rightarrow> real list" where
  "row_proba row = (if row_class row = 0 then [0.72, 0.28] else [0.2, 0.8])"

definition example_classifier :: classifier where
  "example_classifier =
     \<lparr>predict = (\<lambda>X. if list_all numeric_row X then Inr (map row_class X) else Inl ValueError),
      predict_proba = (\<lambda>X. if list_all numeric_row X then Inr (map row_proba X) else Inl ValueError)\<rparr>"

definition example_handler :: handler where
  "example_handler =
     \<lparr>model = Some example_classifier, label_encoders = Some example_encoders,
      feature_names = Some example_features\<rparr>"

definition example_frame :: dataframe where
  "example_frame =
     \<lparr>nrows = 2,
      cols = [(''name'', [StrC ''Ana'', StrC ''Ben'']),
              (''school'', [StrC ''MS'', StrC ''XX'']),
              (''age'', [IntC 17, IntC 16]),
              (''studytime'', [IntC 2, IntC 4]),
              (''absences'', [IntC 6, IntC 0])]\<rparr>"

definition example_processed :: dataframe where
  "example_processed =
     \<lparr>nrows = 2,
      cols = [(''school'', [IntC 1, IntC 0]),
              (''age'', [IntC 17, IntC 16]),
              (''famsup'', [IntC 0, IntC 0]),
              (''studytime'', [IntC 2, IntC 4]),
              (''absences'', [IntC 6, IntC 0])]\<rparr>"

definition bad_first :: dataframe where
  "bad_first = \<lparr>nrows = 2, cols = [(''age'', [StrC ''abc'', IntC 16]), (''studytime'', [IntC 2, IntC 4])]\<rparr>"

definition bad_second :: dataframe where
  "bad_second = \<lparr>nrows = 2, cols = [(''age'', [IntC 17, StrC ''abc'']), (''studytime'', [IntC 2, IntC 4])]\<rparr>"

definition bad_first_processed :: dataframe where
  "bad_first_processed =
     \<lparr>nrows = 2,
      cols = [(''school'', [IntC 0, IntC 0]),
              (''age'', [StrC ''abc'', IntC 16]),
              (''famsup'', [IntC 0, IntC 0]),
              (''studytime'', [IntC 2, IntC 4]),
              (''absences'', [IntC 0, IntC 0])]\<rparr>"

text \<open>Model directories with no file and with the classifier's file alone, and handlers
  with an empty schema and with no feature list.\<close>

definition no_files :: model_files where
  "no_files = \<lparr>model_file = NoFile, encoders_file = NoFile, features_file = NoFile\<rparr>"

definition only_model_file :: model_files where
  "only_model_file =
     \<lparr>model_file = Stored example_classifier, encoders_file = NoFile, features_file = NoFile\<rparr>"

definition empty_schema_handler :: handler where
  "empty_schema_handler =
     \<lparr>model = Some example_classifier, label_encoders = Some [], feature_names = Some []\<rparr>"

definition no_features_handler :: handler where
  "no_features_handler =
     \<lparr>model = Some example_classifier, label_encoders = Some example_encoders,
      feature_names = None\<rparr>"

text \<open>Encoders of two numeric columns and a frame whose cells in them are ints: the
  values 7 and 205 are in no vocabulary.\<close>

definition int_encoders :: "(string \<times> encoder) list" where
  "int_encoders =
     [(''Medu'', \<lparr>classes = [''0'', ''1'', ''2'', ''3'', ''4'']\<rparr>),
      (''absences'', \<lparr>classes = [''-1'', ''0'', ''10'', ''12'', ''2'']\<rparr>)]"

definition int_frame :: dataframe where
  "int_frame =
     \<lparr>nrows = 3,
      cols = [(''Medu'', [IntC 4, IntC 2, IntC 7]),
              (''absences'', [IntC 12, IntC (- 1), IntC 205])]\<rparr>"







text \<open>An analysed batch with a row in each risk tier.\<close>

definition example_batch :: "scored list" where
  "example_batch =
     [\<lparr>Predicted_Performance = 0, Confidence = 0.72\<rparr>,
      \<lparr>Predicted_Performance = 0, Confidence = 0.55\<rparr>,
      \<lparr>Predicted_Performance = 1, Confidence = 0.55\<rparr>,
      \<lparr>Predicted_Performance = 0, Confidence = 0.7\<rparr>,
      \<lparr>Predicted_Performance = 1, Confidence = 0.9\<rparr>]"

section \<open>Properties of the helpers\<close>

lemma str_int_examples:
  "str_int 0 = ''0'' \<and> str_int 17 = ''17'' \<and> str_int 2024 = ''2024'' \<and> str_int (- 5) = ''-5''"
  by code_simp

lemma astype_str_examples:
  "astype_str (IntC 4) = ''4'' \<and> astype_str (StrC ''yes'') = ''yes''"
  by code_simp

lemma bind_err_Inl [simp]: "bind_err (Inl e) f = Inl e"
  by (simp add: bind_err_def)

lemma bind_err_Inr [simp]: "bind_err (Inr x) f = f x"
  by (simp add: bind_err_def)

lemma bind_err_eq_Inr: "bind_err m f = Inr y \<longleftrightarrow> (\<exists>x. m = Inr x \<and> f x = Inr y)"
  by (cases m) simp_all

lemma map_err_length: "map_err f xs = Inr ys \<Longrightarrow> length ys = length xs"
  by (induction xs arbitrary: ys) (auto simp: bind_err_eq_Inr)

lemma map_err_nth: "map_err f xs = Inr ys \<Longrightarrow> i < length xs \<Longrightarrow> f (xs ! i) = Inr (ys ! i)"
proof (induction xs arbitrary: ys i)
  case Nil
  then show ?case by simp
next
  case (Cons x xs)
  then show ?case by (cases i) (auto simp: bind_err_eq_Inr)
qed

lemma map_err_map: "(\<And>x. x \<in> set xs \<Longrightarrow> f x = Inr (g x)) \<Longrightarrow> map_err f xs = Inr (map g xs)"
  by (induction xs) simp_all

lemma map_err_single: "map_err f [x] = bind_err (f x) (\<lambda>y. Inr [y])"
  by simp

lemma index_of_mem: "s \<in> set cs \<Longrightarrow> \<exists>i. index_of cs s = Some i \<and> i < length cs \<and> cs ! i = s"
  by (induction cs) auto

lemma index_of_first: "index_of (c # cs) c = Some 0"
  by simp

lemma map_of_set_column: "map_of (set_column c vs al) = (map_of al)(c \<mapsto> vs)"
  by (induction c vs al rule: set_column.induct) (auto simp: fun_eq_iff)

lemma keys_set_column_present:
  "map_of al c \<noteq> None \<Longrightarrow> map fst (set_column c vs al) = map fst al"
  by (induction c vs al rule: set_column.induct) (auto)

lemma keys_set_column_absent:
  "map_of al c = None \<Longrightarrow> set_column c vs al = al @ [(c, vs)]"
  by (induction c vs al rule: set_column.induct) (auto split: if_splits)

lemma map_set_column:
  "map (\<lambda>(c, vs). (c, h vs)) (set_column c ws al) = set_column c (h ws) (map (\<lambda>(c, vs). (c, h vs)) al)"
  by (induction c ws al rule: set_column.induct) auto

lemma map_of_map_cols:
  "map_of (map (\<lambda>(c, vs). (c, h vs)) al) c = map_option h (map_of al c)"
  by (induction al) auto

lemma rectangular_col: "rectangular df \<Longrightarrow> map_of (cols df) c = Some vs \<Longrightarrow> length vs = nrows df"
  unfolding rectangular_def list_all_iff by (auto dest: map_of_SomeD)

lemma rectangular_set_column:
  "rectangular df \<Longrightarrow> length ws = nrows df \<Longrightarrow> rectangular (df\<lparr>cols := set_column c ws (cols df)\<rparr>)"
proof -
  have "list_all (\<lambda>(c, vs). length vs = n) al \<Longrightarrow> length ws = n \<Longrightarrow>
        list_all (\<lambda>(c, vs). length vs = n) (set_column c ws al)" for n al
    by (induction c ws al rule: set_column.induct) auto
  then show "rectangular df \<Longrightarrow> length ws = nrows df \<Longrightarrow> ?thesis"
    by (simp add: rectangular_def)
qed


subsection \<open>Encoding one column\<close>

lemma substitute_known: "x \<in> set (classes e) \<Longrightarrow> substitute_unknown e x = Inr x"
  by (simp add: substitute_unknown_def)

lemma substitute_fallback:
  "x \<notin> set (classes e) \<Longrightarrow> classes e \<noteq> [] \<Longrightarrow> substitute_unknown e x = Inr (classes e ! 0)"
  by (cases "classes e") (simp_all add: substitute_unknown_def index0_def)

lemma transform_one_known:
  "s \<in> set (classes e) \<Longrightarrow>
     \<exists>i. transform_one e s = Inr (int i) \<and> i < length (classes e) \<and> classes e ! i = s"
  using index_of_mem [of s "classes e"] by (auto simp: transform_one_def)

lemma transform_one_first: "classes e \<noteq> [] \<Longrightarrow> transform_one e (classes e ! 0) = Inr 0"
  by (cases "classes e") (simp_all add: transform_one_def)

lemma encode_column_Inr:
  assumes "encode_column e col = Inr ws"
  obtains ss codes where "map_err (substitute_unknown e) (map astype_str col) = Inr ss"
    and "map_err (transform_one e) ss = Inr codes" and "ws = map IntC codes"
    and "length ss = length col" and "length codes = length col"
proof -
  from assms obtain ss where ss: "map_err (substitute_unknown e) (map astype_str col) = Inr ss"
    and t: "transform e ss = Inr ws"
    by (auto simp: encode_column_def bind_err_eq_Inr)
  from t obtain codes where c: "map_err (transform_one e) ss = Inr codes" and ws: "ws = map IntC codes"
    by (auto simp: transform_def bind_err_eq_Inr)
  from map_err_length [OF ss] have l1: "length ss = length col" by simp
  from map_err_length [OF c] l1 have l2: "length codes = length col" by simp
  from ss c ws l1 l2 show thesis by (rule that)
qed

lemma encode_column_length: "encode_column e col = Inr ws \<Longrightarrow> length ws = length col"
  by (erule encode_column_Inr) simp

lemma encode_column_total:
  assumes "classes e \<noteq> []"
  shows "\<exists>ws. encode_column e col = Inr ws"
proof -
  define g where "g s = (if s \<in> set (classes e) then s else classes e ! 0)" for s
  define k where "k s = int (the (index_of (classes e) s))" for s
  have gin: "g s \<in> set (classes e)" for s
    using assms by (auto simp: g_def)
  have "substitute_unknown e s = Inr (g s)" for s
    using assms by (simp add: g_def substitute_known substitute_fallback)
  then have 1: "map_err (substitute_unknown e) (map astype_str col) = Inr (map g (map astype_str col))"
    by (intro map_err_map) simp
  have "transform_one e s = Inr (k s)" if "s \<in> set (classes e)" for s
    using index_of_mem [OF that] by (auto simp: transform_one_def k_def)
  then have 2: "map_err (transform_one e) (map g (map astype_str col)) = Inr (map k (map g (map astype_str col)))"
    by (intro map_err_map) (auto simp: gin)
  show ?thesis
    unfolding encode_column_def 1 bind_err_Inr transform_def 2 by blast
qed

lemma encode_column_nth:
  assumes "encode_column e vs = Inr ws" and "i < length vs"
  shows "encode_column e [vs ! i] = Inr [ws ! i]"
proof -
  from assms(1) obtain ss codes where ss: "map_err (substitute_unknown e) (map astype_str vs) = Inr ss"
    and c: "map_err (transform_one e) ss = Inr codes" and ws: "ws = map IntC codes"
    and l1: "length ss = length vs" and l2: "length codes = length vs"
    by (rule encode_column_Inr)
  from map_err_nth [OF ss] assms(2) have a: "substitute_unknown e (astype_str (vs ! i)) = Inr (ss ! i)"
    by simp
  from map_err_nth [OF c] assms(2) l1 have b: "transform_one e (ss ! i) = Inr (codes ! i)"
    by simp
  show ?thesis
    using assms(2) l2 by (simp add: encode_column_def transform_def a b ws)
qed

lemma encode_column_cell:
  assumes "encode_column e col = Inr ws" and "i < length col"
  shows "\<exists>code. ws ! i = IntC code \<and>
           (astype_str (col ! i) \<in> set (classes e) \<longrightarrow>
              transform_one e (astype_str (col ! i)) = Inr code) \<and>
           (astype_str (col ! i) \<notin> set (classes e) \<longrightarrow>
              classes e \<noteq> [] \<and> transform_one e (classes e ! 0) = Inr code)"
proof -
  from assms(1) obtain ss codes where ss: "map_err (substitute_unknown e) (map astype_str col) = Inr ss"
    and c: "map_err (transform_one e) ss = Inr codes" and ws: "ws = map IntC codes"
    and l1: "length ss = length col" and l2: "length codes = length col"
    by (rule encode_column_Inr)
  from map_err_nth [OF ss] assms(2) have a: "substitute_unknown e (astype_str (col ! i)) = Inr (ss ! i)"
    by simp
  from map_err_nth [OF c] assms(2) l1 have b: "transform_one e (ss ! i) = Inr (codes ! i)"
    by simp
  have "ws ! i = IntC (codes ! i)" using ws l2 assms(2) by simp
  moreover have "transform_one e (astype_str (col ! i)) = Inr (codes ! i)"
    if "astype_str (col ! i) \<in> set (classes e)"
    using a b that by (simp add: substitute_known)
  moreover have "classes e \<noteq> [] \<and> transform_one e (classes e ! 0) = Inr (codes ! i)"
    if "astype_str (col ! i) \<notin> set (classes e)"
  proof -
    from a that have i0: "index0 (classes e) = Inr (ss ! i)"
      by (simp add: substitute_unknown_def)
    then have ne: "classes e \<noteq> []" by (auto simp: index0_def)
    with i0 have "ss ! i = classes e ! 0" by (cases "classes e") (auto simp: index0_def)
    with b ne show ?thesis by simp
  qed
  ultimately show ?thesis by blast
qed

subsection \<open>The encoder loop\<close>

lemma encode_columns_shape:
  "encode_columns encs df = Inr df' \<Longrightarrow> map fst (cols df') = map fst (cols df) \<and> nrows df' = nrows df"
proof (induction encs arbitrary: df)
  case Nil
  then show ?case by simp
next
  case (Cons a encs)
  obtain c e where a: "a = (c, e)" by (cases a)
  show ?case
  proof (cases "map_of (cols df) c")
    case None
    with Cons a show ?thesis by simp
  next
    case (Some col)
    with Cons.prems a obtain col' where
      r: "encode_columns encs (df\<lparr>cols := set_column c col' (cols df)\<rparr>) = Inr df'"
      by (auto simp: bind_err_eq_Inr)
    from Cons.IH [OF r] Some show ?thesis
      by (simp add: keys_set_column_present)
  qed
qed

lemma encode_columns_other:
  "encode_columns encs df = Inr df' \<Longrightarrow> c \<notin> fst ` set encs \<Longrightarrow> map_of (cols df') c = map_of (cols df) c"
proof (induction encs arbitrary: df)
  case Nil
  then show ?case by simp
next
  case (Cons a encs)
  obtain c' e where a: "a = (c', e)" by (cases a)
  with Cons.prems have ne: "c' \<noteq> c" and notin: "c \<notin> fst ` set encs" by auto
  show ?case
  proof (cases "map_of (cols df) c'")
    case None
    with Cons a notin show ?thesis by simp
  next
    case (Some col)
    with Cons.prems a obtain col' where
      r: "encode_columns encs (df\<lparr>cols := set_column c' col' (cols df)\<rparr>) = Inr df'"
      by (auto simp: bind_err_eq_Inr)
    from Cons.IH [OF r notin] ne show ?thesis
      by (simp add: map_of_set_column)
  qed
qed

lemma encode_columns_total:
  "list_all (\<lambda>(c, e). classes e \<noteq> []) encs \<Longrightarrow> \<exists>df'. encode_columns encs df = Inr df'"
proof (induction encs arbitrary: df)
  case Nil
  then show ?case by simp
next
  case (Cons a encs)
  obtain c e where a: "a = (c, e)" by (cases a)
  with Cons.prems have ne: "classes e \<noteq> []" and rest: "list_all (\<lambda>(c, e). classes e \<noteq> []) encs"
    by auto
  show ?case
  proof (cases "map_of (cols df) c")
    case None
    with Cons.IH [OF rest] a show ?thesis by simp
  next
    case (Some col)
    from encode_column_total [OF ne] obtain ws where "encode_column e col = Inr ws" by blast
    with Cons.IH [OF rest] a Some show ?thesis by simp
  qed
qed

lemma encode_columns_column:
  assumes "distinct (map fst encs)" and "map_of encs c = Some e"
    and "map_of (cols df) c = Some col" and "encode_columns encs df = Inr df'"
  shows "\<exists>ws. encode_column e col = Inr ws \<and> map_of (cols df') c = Some ws"
  using assms
proof (induction encs arbitrary: df)
  case Nil
  then show ?case by simp
next
  case (Cons a encs)
  obtain c' e' where a: "a = (c', e')" by (cases a)
  from Cons.prems(1) a have d: "distinct (map fst encs)" and notin: "c' \<notin> fst ` set encs"
    by auto
  show ?case
  proof (cases "c' = c")
    case True
    with Cons.prems(2) a have e': "e' = e" by simp
    from Cons.prems(3,4) a True e' obtain ws where ws: "encode_column e col = Inr ws"
      and r: "encode_columns encs (df\<lparr>cols := set_column c ws (cols df)\<rparr>) = Inr df'"
      by (auto simp: bind_err_eq_Inr)
    from encode_columns_other [OF r] notin True
    have "map_of (cols df') c = Some ws" by (simp add: map_of_set_column)
    with ws show ?thesis by blast
  next
    case False
    with Cons.prems(2) a have m: "map_of encs c = Some e" by simp
    show ?thesis
    proof (cases "map_of (cols df) c'")
      case None
      with Cons.prems(4) a have "encode_columns encs df = Inr df'" by simp
      from Cons.IH [OF d m Cons.prems(3) this] show ?thesis .
    next
      case (Some col2)
      with Cons.prems(4) a obtain ws2 where
        r: "encode_columns encs (df\<lparr>cols := set_column c' ws2 (cols df)\<rparr>) = Inr df'"
        by (auto simp: bind_err_eq_Inr)
      have "map_of (cols (df\<lparr>cols := set_column c' ws2 (cols df)\<rparr>)) c = Some col"
        using False Cons.prems(3) by (simp add: map_of_set_column)
      from Cons.IH [OF d m this r] show ?thesis .
    qed
  qed
qed

subsection \<open>Filling and selecting\<close>

lemma fill_missing_nrows: "nrows (fill_missing names df) = nrows df"
  by (induction names arbitrary: df) simp_all

lemma fill_missing_Cons_absent:
  "map_of (cols df) f = None \<Longrightarrow>
     fill_missing (f # names) df =
       fill_missing names (df\<lparr>cols := set_column f (replicate (nrows df) (IntC 0)) (cols df)\<rparr>)"
  by simp

lemma fill_missing_Cons_present:
  "map_of (cols df) f = Some vs \<Longrightarrow> fill_missing (f # names) df = fill_missing names df"
  by simp

lemma fill_missing_keeps:
  "map_of (cols df) c = Some vs \<Longrightarrow> map_of (cols (fill_missing names df)) c = Some vs"
proof (induction names arbitrary: df)
  case Nil
  then show ?case by simp
next
  case (Cons f names)
  show ?case
  proof (cases "map_of (cols df) f")
    case None
    with Cons.prems have "f \<noteq> c" by auto
    with Cons.prems have "map_of (cols (df\<lparr>cols := set_column f (replicate (nrows df) (IntC 0)) (cols df)\<rparr>)) c = Some vs"
      by (simp add: map_of_set_column)
    from Cons.IH [OF this] show ?thesis
      by (simp only: fill_missing_Cons_absent [OF None])
  next
    case (Some ws)
    from Cons.IH [OF Cons.prems] show ?thesis
      by (simp only: fill_missing_Cons_present [OF Some])
  qed
qed

lemma fill_missing_absent:
  "f \<in> set names \<Longrightarrow> map_of (cols df) f = None \<Longrightarrow>
     map_of (cols (fill_missing names df)) f = Some (replicate (nrows df) (IntC 0))"
proof (induction names arbitrary: df)
  case Nil
  then show ?case by simp
next
  case (Cons g names)
  let ?df = "df\<lparr>cols := set_column g (replicate (nrows df) (IntC 0)) (cols df)\<rparr>"
  show ?case
  proof (cases "g = f")
    case True
    have "map_of (cols ?df) f = Some (replicate (nrows df) (IntC 0))"
      using True by (simp add: map_of_set_column)
    from fill_missing_keeps [OF this] show ?thesis
      using True by (simp only: fill_missing_Cons_absent [OF Cons.prems(2)])
  next
    case False
    with Cons.prems have fin: "f \<in> set names" by simp
    show ?thesis
    proof (cases "map_of (cols df) g")
      case None
      have "map_of (cols ?df) f = None" using False Cons.prems(2) by (simp add: map_of_set_column)
      from Cons.IH [OF fin this] show ?thesis
        by (simp add: fill_missing_Cons_absent [OF None] del: fill_missing.simps)
    next
      case (Some ws)
      from Cons.IH [OF fin Cons.prems(2)] show ?thesis
        by (simp only: fill_missing_Cons_present [OF Some])
    qed
  qed
qed

lemma fill_missing_present:
  "f \<in> set names \<Longrightarrow> map_of (cols (fill_missing names df)) f \<noteq> None"
proof (cases "map_of (cols df) f")
  case None
  assume "f \<in> set names"
  from fill_missing_absent [OF this None] show ?thesis by simp
next
  case (Some vs)
  from fill_missing_keeps [OF this] show ?thesis by simp
qed

lemma rectangular_fill_missing: "rectangular df \<Longrightarrow> rectangular (fill_missing names df)"
proof (induction names arbitrary: df)
  case Nil
  then show ?case by simp
next
  case (Cons f names)
  have "rectangular (df\<lparr>cols := set_column f (replicate (nrows df) (IntC 0)) (cols df)\<rparr>)"
    by (rule rectangular_set_column [OF Cons.prems]) simp
  with Cons show ?case by (cases "map_of (cols df) f") simp_all
qed

lemma select_columns_Inr:
  assumes "\<And>n. n \<in> set names \<Longrightarrow> map_of (cols df) n \<noteq> None"
  shows "select_columns names df = Inr (df\<lparr>cols := map (\<lambda>n. (n, the (map_of (cols df) n))) names\<rparr>)"
proof -
  have "map_err (\<lambda>n. case map_of (cols df) n of None \<Rightarrow> Inl KeyError | Some col \<Rightarrow> Inr (n, col)) names
        = Inr (map (\<lambda>n. (n, the (map_of (cols df) n))) names)"
    by (rule map_err_map) (use assms in fastforce)
  then show ?thesis by (simp add: select_columns_def)
qed

lemma select_columns_cols:
  assumes "\<And>n. n \<in> set names \<Longrightarrow> map_of (cols df) n \<noteq> None"
  shows "\<exists>out. select_columns names df = Inr out \<and> map fst (cols out) = names
           \<and> nrows out = nrows df
           \<and> (\<forall>n \<in> set names. map_of (cols out) n = map_of (cols df) n)"
proof -
  let ?out = "df\<lparr>cols := map (\<lambda>n. (n, the (map_of (cols df) n))) names\<rparr>"
  have "map fst (cols ?out) = names"
    by (simp add: comp_def)
  moreover have "map_of (cols ?out) n = map_of (cols df) n" if "n \<in> set names" for n
    using that assms [OF that] by (simp add: map_of_map_restrict)
  ultimately show ?thesis
    using select_columns_Inr [OF assms] by simp
qed

subsection \<open>Preprocessing as a whole\<close>

lemma preprocess_data_Inr:
  assumes "label_encoders h = Some encs" and "feature_names h = Some names"
    and "encode_columns encs df = Inr processed"
  shows "preprocess_data h df =
           Inr (fill_missing names processed
                  \<lparr>cols := map (\<lambda>n. (n, the (map_of (cols (fill_missing names processed)) n))) names\<rparr>)"
proof -
  have "select_columns names (fill_missing names processed) =
          Inr (fill_missing names processed
                 \<lparr>cols := map (\<lambda>n. (n, the (map_of (cols (fill_missing names processed)) n))) names\<rparr>)"
    by (rule select_columns_Inr) (rule fill_missing_present)
  with assms show ?thesis by (simp add: preprocess_data_def)
qed

lemma preprocess_data_cases:
  assumes "preprocess_data h df = Inr out"
  obtains encs names processed where "label_encoders h = Some encs" and "feature_names h = Some names"
    and "encode_columns encs df = Inr processed"
proof -
  from assms obtain encs where e: "label_encoders h = Some encs"
    by (cases "label_encoders h") (simp_all add: preprocess_data_def)
  with assms obtain processed where p: "encode_columns encs df = Inr processed"
    by (cases "encode_columns encs df") (simp_all add: preprocess_data_def)
  with assms e obtain names where n: "feature_names h = Some names"
    by (cases "feature_names h") (simp_all add: preprocess_data_def)
  from e n p show thesis by (rule that)
qed

subsection \<open>One row of a frame\<close>

lemma nrows_iloc [simp]: "nrows (iloc df i) = 1"
  by (simp add: iloc_def)

lemma cols_iloc: "cols (iloc df i) = map (\<lambda>(c, vs). (c, [vs ! i])) (cols df)"
  by (simp add: iloc_def)

lemma map_of_iloc: "map_of (cols (iloc df i)) c = map_option (\<lambda>vs. [vs ! i]) (map_of (cols df) c)"
  by (simp add: cols_iloc map_of_map_cols)

lemma iloc_set_column:
  "iloc (df\<lparr>cols := set_column c ws (cols df)\<rparr>) i =
     (iloc df i)\<lparr>cols := set_column c [ws ! i] (cols (iloc df i))\<rparr>"
  by (simp add: iloc_def map_set_column)

lemma df_rows_iloc: "i < nrows X \<Longrightarrow> df_rows (iloc X i) = [df_rows X ! i]"
  by (simp add: df_rows_def iloc_def comp_def case_prod_unfold)

lemma encode_columns_iloc:
  "rectangular df \<Longrightarrow> i < nrows df \<Longrightarrow> encode_columns encs df = Inr df' \<Longrightarrow>
     encode_columns encs (iloc df i) = Inr (iloc df' i) \<and> rectangular df'"
proof (induction encs arbitrary: df)
  case Nil
  then show ?case by simp
next
  case (Cons a encs)
  obtain c e where a: "a = (c, e)" by (cases a)
  show ?case
  proof (cases "map_of (cols df) c")
    case None
    with Cons.prems a have "encode_columns encs df = Inr df'" by simp
    from Cons.IH [OF Cons.prems(1,2) this] None a show ?thesis
      by (simp add: map_of_iloc)
  next
    case (Some col)
    let ?df2 = "\<lambda>ws. df\<lparr>cols := set_column c ws (cols df)\<rparr>"
    from Some Cons.prems(3) a obtain ws where ws: "encode_column e col = Inr ws"
      and r: "encode_columns encs (?df2 ws) = Inr df'"
      by (auto simp: bind_err_eq_Inr)
    have lc: "length col = nrows df" by (rule rectangular_col [OF Cons.prems(1) Some])
    with encode_column_length [OF ws] have lw: "length ws = nrows df" by simp
    have rect: "rectangular (?df2 ws)" by (rule rectangular_set_column [OF Cons.prems(1) lw])
    have i: "i < nrows (?df2 ws)" using Cons.prems(2) by simp
    from Cons.IH [OF rect i r]
    have ih: "encode_columns encs (iloc (?df2 ws) i) = Inr (iloc df' i)" and rd: "rectangular df'"
      by simp_all
    have one: "encode_column e [col ! i] = Inr [ws ! i]"
      by (rule encode_column_nth [OF ws]) (use lc Cons.prems(2) in simp)
    have "encode_columns (a # encs) (iloc df i) = Inr (iloc df' i)"
      using ih by (simp add: a map_of_iloc Some one iloc_set_column)
    with rd show ?thesis by simp
  qed
qed

lemma fill_missing_iloc:
  "i < nrows df \<Longrightarrow> fill_missing names (iloc df i) = iloc (fill_missing names df) i"
proof (induction names arbitrary: df)
  case Nil
  then show ?case by simp
next
  case (Cons f names)
  show ?case
  proof (cases "map_of (cols df) f")
    case None
    let ?df2 = "df\<lparr>cols := set_column f (replicate (nrows df) (IntC 0)) (cols df)\<rparr>"
    have n2: "map_of (cols (iloc df i)) f = None" using None by (simp add: map_of_iloc)
    have "i < nrows ?df2" using Cons.prems by simp
    from Cons.IH [OF this] have "fill_missing names (iloc ?df2 i) = iloc (fill_missing names ?df2) i" .
    moreover have "iloc ?df2 i =
        (iloc df i)\<lparr>cols := set_column f (replicate (nrows (iloc df i)) (IntC 0)) (cols (iloc df i))\<rparr>"
      using Cons.prems by (simp add: iloc_set_column)
    ultimately show ?thesis
      by (simp only: fill_missing_Cons_absent [OF None] fill_missing_Cons_absent [OF n2])
  next
    case (Some vs)
    have s2: "map_of (cols (iloc df i)) f = Some [vs ! i]" using Some by (simp add: map_of_iloc)
    from Cons.IH [OF Cons.prems] show ?thesis
      by (simp only: fill_missing_Cons_present [OF Some] fill_missing_Cons_present [OF s2])
  qed
qed

lemma select_iloc:
  assumes "\<And>n. n \<in> set names \<Longrightarrow> map_of (cols df) n \<noteq> None"
  shows "df\<lparr>nrows := 1, cols := map (\<lambda>n. (n, the (map_of (cols (iloc df i)) n))) names\<rparr>
         = iloc (df\<lparr>cols := map (\<lambda>n. (n, the (map_of (cols df) n))) names\<rparr>) i"
proof -
  have "map (\<lambda>n. (n, the (map_of (cols (iloc df i)) n))) names
        = map (\<lambda>(c, vs). (c, [vs ! i])) (map (\<lambda>n. (n, the (map_of (cols df) n))) names)"
    using assms by (fastforce simp: map_of_iloc)
  then show ?thesis by (simp add: iloc_def)
qed

lemma rectangular_select:
  assumes "rectangular df" and "\<And>n. n \<in> set names \<Longrightarrow> map_of (cols df) n \<noteq> None"
  shows "rectangular (df\<lparr>cols := map (\<lambda>n. (n, the (map_of (cols df) n))) names\<rparr>)"
proof -
  have "length (the (map_of (cols df) n)) = nrows df" if "n \<in> set names" for n
    using assms(2) [OF that] rectangular_col [OF assms(1)] by auto
  then show ?thesis by (simp add: rectangular_def list_all_iff)
qed

lemma preprocess_data_iloc:
  assumes "rectangular df" and "i < nrows df" and "preprocess_data h df = Inr X"
  shows "preprocess_data h (iloc df i) = Inr (iloc X i) \<and> rectangular X \<and> nrows X = nrows df"
proof -
  from assms(3) obtain encs names processed where e: "label_encoders h = Some encs"
    and n: "feature_names h = Some names" and p: "encode_columns encs df = Inr processed"
    by (rule preprocess_data_cases)
  let ?filled = "fill_missing names processed"
  let ?sel = "\<lambda>d. d\<lparr>cols := map (\<lambda>n. (n, the (map_of (cols d) n))) names\<rparr>"
  from preprocess_data_Inr [OF e n p] assms(3) have X: "X = ?sel ?filled" by simp
  from encode_columns_iloc [OF assms(1,2) p]
  have p1: "encode_columns encs (iloc df i) = Inr (iloc processed i)" and rp: "rectangular processed"
    by simp_all
  from encode_columns_shape [OF p] have np: "nrows processed = nrows df" by simp
  then have ip: "i < nrows processed" using assms(2) by simp
  have pres: "\<And>n. n \<in> set names \<Longrightarrow> map_of (cols ?filled) n \<noteq> None"
    by (rule fill_missing_present)
  have "preprocess_data h (iloc df i) = Inr (?sel (fill_missing names (iloc processed i)))"
    by (rule preprocess_data_Inr [OF e n p1])
  also have "fill_missing names (iloc processed i) = iloc ?filled i"
    by (rule fill_missing_iloc [OF ip])
  also have "?sel (iloc ?filled i) = iloc (?sel ?filled) i"
    using select_iloc [of names ?filled i, OF pres] by (simp add: iloc_def)
  finally have "preprocess_data h (iloc df i) = Inr (iloc X i)" using X by simp
  moreover have "rectangular X"
    unfolding X by (rule rectangular_select [OF rectangular_fill_missing [OF rp] pres])
  moreover have "nrows X = nrows df"
    unfolding X by (simp add: fill_missing_nrows np)
  ultimately show ?thesis by simp
qed

subsection \<open>The example artifacts\<close>

lemma example_preprocess: "preprocess_data example_handler example_frame = Inr example_processed"
  by code_simp

lemma example_rows:
  "df_rows example_processed =
     [[IntC 1, IntC 17, IntC 0, IntC 2, IntC 6], [IntC 0, IntC 16, IntC 0, IntC 4, IntC 0]]"
  by code_simp


lemma example_batch_prediction:
  "predict_batch example_handler example_frame = Inr ([0, 1], [0.72, 0.8])"
  by code_simp

lemma example_single_prediction:
  "predict_single example_handler (iloc example_frame 0) = Inr (0, 0.72)"
  by code_simp


lemma example_row_aligned: "row_aligned example_classifier"
proof -
  have 1: "length ps = length X \<and> (\<forall>i < length X. predict example_classifier [X ! i] = Inr [ps ! i])"
    if "predict example_classifier X = Inr ps" for X ps
  proof -
    from that have n: "list_all numeric_row X" and ps: "ps = map row_class X"
      by (auto simp: example_classifier_def split: if_splits)
    have "predict example_classifier [X ! i] = Inr [ps ! i]" if "i < length X" for i
    proof -
      from n that have "numeric_row (X ! i)" by (simp only: list_all_length)
      with that ps show ?thesis by (simp add: example_classifier_def)
    qed
    with ps show ?thesis by simp
  qed
  have 2: "length P = length X \<and> (\<forall>i < length X. predict_proba example_classifier [X ! i] = Inr [P ! i])"
    if "predict_proba example_classifier X = Inr P" for X P
  proof -
    from that have n: "list_all numeric_row X" and ps: "P = map row_proba X"
      by (auto simp: example_classifier_def split: if_splits)
    have "predict_proba example_classifier [X ! i] = Inr [P ! i]" if "i < length X" for i
    proof -
      from n that have "numeric_row (X ! i)" by (simp only: list_all_length)
      with that ps show ?thesis by (simp add: example_classifier_def)
    qed
    with ps show ?thesis by simp
  qed
  from 1 2 show ?thesis unfolding row_aligned_def by blast
qed

subsection \<open>Maximum of a probability row\<close>

lemma py_max_Max:
  assumes "py_max xs = Inr c"
  shows "xs \<noteq> [] \<and> c = Max (set xs)"
proof (cases xs)
  case Nil
  with assms show ?thesis by (simp add: py_max_def)
next
  case (Cons a list)
  have "fold max list a = Max (set (a # list))"
    by (rule Max.set_eq_fold [symmetric])
  with assms Cons show ?thesis by (simp add: py_max_def)
qed

lemma Max_unit_interval:
  fixes xs :: "real list"
  assumes "xs \<noteq> []" and "\<forall>x \<in> set xs. 0 \<le> x \<and> x \<le> 1"
  shows "0 \<le> Max (set xs) \<and> Max (set xs) \<le> 1"
proof -
  have "Max (set xs) \<in> set xs" using assms(1) by (intro Max_in) simp_all
  with assms(2) show ?thesis by blast
qed

lemma length_df_rows: "length (df_rows X) = nrows X"
  by (simp add: df_rows_def)

lemma predict_batch_cases:
  assumes "predict_batch h df = Inr (predictions, confidences)"
  obtains X m P where "preprocess_data h df = Inr X" and "model h = Some m"
    and "predict m (df_rows X) = Inr predictions" and "predict_proba m (df_rows X) = Inr P"
    and "map_err py_max P = Inr confidences"
proof -
  from assms obtain X where X: "preprocess_data h df = Inr X"
    by (cases "preprocess_data h df") (simp_all add: predict_batch_def)
  from assms X obtain m where m: "model h = Some m"
    by (cases "model h") (simp_all add: predict_batch_def the_model_def)
  from assms X m obtain ps where ps: "predict m (df_rows X) = Inr ps"
    by (cases "predict m (df_rows X)") (simp_all add: predict_batch_def the_model_def)
  from assms X m ps obtain P where P: "predict_proba m (df_rows X) = Inr P"
    by (cases "predict_proba m (df_rows X)") (simp_all add: predict_batch_def the_model_def)
  from assms X m ps P obtain cs where cs: "map_err py_max P = Inr cs"
    by (cases "map_err py_max P") (simp_all add: predict_batch_def the_model_def np_max_axis1_def)
  from assms X m ps P cs have "ps = predictions" "cs = confidences"
    by (simp_all add: predict_batch_def the_model_def np_max_axis1_def)
  with X m ps P cs show thesis by (intro that) simp_all
qed

lemma predict_single_cases:
  assumes "predict_single h df = Inr (prediction, confidence)"
  obtains X m ps P where "preprocess_data h df = Inr X" and "model h = Some m"
    and "predict m (df_rows X) = Inr ps" and "index0 ps = Inr prediction"
    and "predict_proba m (df_rows X) = Inr P" and "P \<noteq> []"
    and "py_max (P ! 0) = Inr confidence"
proof -
  from assms obtain X where X: "preprocess_data h df = Inr X"
    by (cases "preprocess_data h df") (simp_all add: predict_single_def)
  from assms X obtain m where m: "model h = Some m"
    by (cases "model h") (simp_all add: predict_single_def the_model_def)
  from assms X m obtain ps where ps: "predict m (df_rows X) = Inr ps"
    by (cases "predict m (df_rows X)") (simp_all add: predict_single_def the_model_def)
  from assms X m ps obtain p where p: "index0 ps = Inr p"
    by (cases "index0 ps") (simp_all add: predict_single_def the_model_def)
  from assms X m ps p obtain P where P: "predict_proba m (df_rows X) = Inr P"
    by (cases "predict_proba m (df_rows X)") (simp_all add: predict_single_def the_model_def)
  from assms X m ps p P obtain row where row: "index0 P = Inr row"
    by (cases "index0 P") (simp_all add: predict_single_def the_model_def)
  then have ne: "P \<noteq> []" and r0: "row = P ! 0"
    by (cases P; simp add: index0_def)+
  from assms X m ps p P row have "p = prediction" "py_max row = Inr confidence"
    by (auto simp: predict_single_def the_model_def bind_err_eq_Inr)
  with X m ps p P ne r0 show thesis by (intro that) simp_all
qed

lemma example_vocabularies: "list_all (\<lambda>(c, e). classes e \<noteq> []) example_encoders"
  by (simp add: example_encoders_def)

lemma example_handler_fields:
  "model example_handler = Some example_classifier"
  "label_encoders example_handler = Some example_encoders"
  "feature_names example_handler = Some example_features"
  by (simp_all add: example_handler_def)

lemma map_of_selected:
  "n \<in> set names \<Longrightarrow> map_of (map (\<lambda>n. (n, g n)) names) n = Some (g n)"
  by (simp add: map_of_map_restrict)

lemma map_of_selected_None:
  "n \<notin> set names \<Longrightarrow> map_of (map (\<lambda>n. (n, g n)) names) n = None"
  by (simp add: map_of_map_restrict)

lemma df_rows_nth:
  "i < nrows X \<Longrightarrow> df_rows X ! i = map (\<lambda>(c, vs). vs ! i) (cols X)"
  by (simp add: df_rows_def)

lemma example_single_first:
  "predict_single example_handler (iloc example_frame 0) = Inr (0, 0.72)"
  by code_simp

lemma example_single_second:
  "predict_single example_handler (iloc example_frame 1) = Inr (1, 0.8)"
  by code_simp

lemma example_rectangular: "rectangular example_frame"
  by code_simp

lemma preprocess_data_nrows:
  assumes "preprocess_data h df = Inr X"
  shows "nrows X = nrows df"
proof -
  from assms obtain encs names processed where e: "label_encoders h = Some encs"
    and n: "feature_names h = Some names" and p: "encode_columns encs df = Inr processed"
    by (rule preprocess_data_cases)
  from preprocess_data_Inr [OF e n p] assms encode_columns_shape [OF p]
  show ?thesis by (auto simp: fill_missing_nrows)
qed

subsection \<open>Missing artifacts\<close>

lemma load_models_encoders:
  "label_encoders (WebModelHandler files) =
     (case model_file files of
        Stored m \<Rightarrow> (case encoders_file files of Stored encoders \<Rightarrow> Some encoders | _ \<Rightarrow> None)
      | _ \<Rightarrow> None)"
  by (simp add: WebModelHandler_def load_models_def Let_def split: stored.splits)

lemma load_models_model:
  "model (WebModelHandler files) = (case model_file files of Stored m \<Rightarrow> Some m | _ \<Rightarrow> None)"
  by (simp add: WebModelHandler_def load_models_def Let_def split: stored.splits)

lemma preprocess_no_encoders: "label_encoders h = None \<Longrightarrow> preprocess_data h df = Inl AttributeError"
  by (simp add: preprocess_data_def)

lemma preprocess_no_features: "feature_names h = None \<Longrightarrow> \<exists>e. preprocess_data h df = Inl e"
  by (cases "label_encoders h"; cases "encode_columns (the (label_encoders h)) df")
     (simp_all add: preprocess_data_def)

lemma preprocess_empty_schema:
  "label_encoders h = Some [] \<Longrightarrow> feature_names h = Some [] \<Longrightarrow>
     preprocess_data h df = Inr (df\<lparr>cols := []\<rparr>)"
  by (simp add: preprocess_data_def select_columns_def)

lemma empty_schema_fields:
  "label_encoders empty_schema_handler = Some []" "feature_names empty_schema_handler = Some []"
  by (simp_all add: empty_schema_handler_def)

lemma bad_first_preprocess: "preprocess_data example_handler bad_first = Inr bad_first_processed"
  by code_simp

lemma bad_first_rejected: "predict example_classifier (df_rows bad_first_processed) = Inl ValueError"
  by code_simp

subsection \<open>The batch summary\<close>

lemma int_vocabularies: "list_all (\<lambda>(c, e). classes e \<noteq> []) int_encoders"
  by (simp add: int_encoders_def)

lemma codes3:
  "length codes = 3 \<Longrightarrow> codes ! 0 = a \<Longrightarrow> codes ! 1 = b \<Longrightarrow> codes ! 2 = c \<Longrightarrow> codes = [a, b, c]"
  for codes :: "int list"
  by (cases codes; cases "tl codes"; cases "tl (tl codes)") auto











subsection \<open>The recommendation rules\<close>

lemma py_lt_field:
  "(case d k of Some (StrC s) \<Rightarrow> False | _ \<Rightarrow> True) \<Longrightarrow>
     py_lt (dict_get d k (IntC 0)) b = Inr (int_field d k < b)"
  by (auto simp: dict_get_def int_field_def split: option.splits cell.splits)

lemma py_gt_field:
  "(case d k of Some (StrC s) \<Rightarrow> False | _ \<Rightarrow> True) \<Longrightarrow>
     py_gt (dict_get d k (IntC 0)) b = Inr (int_field d k > b)"
  by (auto simp: dict_get_def int_field_def split: option.splits cell.splits)

lemma web_recs: "numeric_fields d \<Longrightarrow> get_recommendations p d = Inr (all_rules_fire p d)"
  unfolding get_recommendations_def numeric_fields_def
  by (simp add: py_lt_field py_gt_field all_rules_fire_def fired_def rule_table_def str_field_def)

lemma gui_recs: "numeric_fields d \<Longrightarrow> PredictionWindow_get_recommendations p d = Inr (all_rules_fire p d)"
  unfolding PredictionWindow_get_recommendations_def numeric_fields_def
  by (simp add: py_lt_field py_gt_field all_rules_fire_def fired_def rule_table_def str_field_def)

lemma numeric_example: "numeric_fields example_student"
  by (simp add: numeric_fields_def example_student_def)

lemma numeric_diligent: "numeric_fields diligent_student"
  by (simp add: numeric_fields_def diligent_student_def)

lemma fire_example: "all_rules_fire 0 example_student = [rec_studytime, rec_famsup]"
  by (simp add: all_rules_fire_def fired_def rule_table_def int_field_def str_field_def
      dict_get_def example_student_def)

lemma fire_diligent: "all_rules_fire 0 diligent_student = [rec_monitor]"
  by (simp add: all_rules_fire_def fired_def rule_table_def int_field_def str_field_def
      dict_get_def diligent_student_def)

section \<open>The claims\<close>

text \<open>
  C1. With the encoders and the feature names loaded, and every encoder holding at
  least one category, preprocessing returns a frame whose columns are exactly the
  expected feature names in their stored order, with as many rows as the input: each
  row is a vector as long as the feature list, every expected feature that is no
  column of the input is a column of zeros (slot \<open>j\<close> of every row is 0), and no
  column outside the feature list survives.
\<close>

theorem preprocess_output_schema:
  assumes "label_encoders h = Some encs" and "feature_names h = Some names"
    and "list_all (\<lambda>(c, e). classes e \<noteq> []) encs"
  shows "\<exists>out. preprocess_data h df = Inr out
     \<and> columns out = names \<and> nrows out = nrows df
     \<and> length (df_rows out) = nrows df
     \<and> (\<forall>row \<in> set (df_rows out). length row = length names)
     \<and> (\<forall>f \<in> set names. map_of (cols df) f = None \<longrightarrow>
           map_of (cols out) f = Some (replicate (nrows df) (IntC 0)))
     \<and> (\<forall>i < nrows df. \<forall>j < length names. map_of (cols df) (names ! j) = None \<longrightarrow>
           df_rows out ! i ! j = IntC 0)
     \<and> (\<forall>c. c \<notin> set names \<longrightarrow> map_of (cols out) c = None)"
proof -
  from encode_columns_total [OF assms(3)] obtain processed
    where p: "encode_columns encs df = Inr processed" by blast
  let ?filled = "fill_missing names processed"
  let ?g = "\<lambda>n. the (map_of (cols ?filled) n)"
  let ?out = "?filled\<lparr>cols := map (\<lambda>n. (n, ?g n)) names\<rparr>"
  have out: "preprocess_data h df = Inr ?out"
    by (rule preprocess_data_Inr [OF assms(1,2) p])
  from encode_columns_shape [OF p]
  have keys: "map fst (cols processed) = map fst (cols df)" and np: "nrows processed = nrows df"
    by simp_all
  have nr: "nrows ?out = nrows df" by (simp add: fill_missing_nrows np)
  have absent: "?g f = replicate (nrows df) (IntC 0)"
    if "f \<in> set names" "map_of (cols df) f = None" for f
  proof -
    from that(2) have "f \<notin> set (map fst (cols df))" by (simp add: map_of_eq_None_iff)
    with keys have "f \<notin> set (map fst (cols processed))" by metis
    then have "map_of (cols processed) f = None" by (simp add: map_of_eq_None_iff)
    from fill_missing_absent [OF that(1) this] np show ?thesis by simp
  qed
  have 1: "columns ?out = names" by (simp add: columns_def comp_def)
  have 2: "length (df_rows ?out) = nrows df" using nr by (simp add: length_df_rows)
  have 3: "\<forall>row \<in> set (df_rows ?out). length row = length names"
    by (auto simp: df_rows_def)
  have 4: "\<forall>f \<in> set names. map_of (cols df) f = None \<longrightarrow>
           map_of (cols ?out) f = Some (replicate (nrows df) (IntC 0))"
    using absent by (simp add: map_of_selected)
  have 5: "\<forall>i < nrows df. \<forall>j < length names. map_of (cols df) (names ! j) = None \<longrightarrow>
           df_rows ?out ! i ! j = IntC 0"
  proof (intro allI impI)
    fix i j assume i: "i < nrows df" and j: "j < length names"
      and a: "map_of (cols df) (names ! j) = None"
    from j have "names ! j \<in> set names" by simp
    from absent [OF this a] have "?g (names ! j) ! i = IntC 0" using i by simp
    moreover have "df_rows ?out ! i = map (\<lambda>(c, vs). vs ! i) (cols ?out)"
      using i nr by (intro df_rows_nth) simp
    ultimately show "df_rows ?out ! i ! j = IntC 0" using j by simp
  qed
  have 6: "\<forall>c. c \<notin> set names \<longrightarrow> map_of (cols ?out) c = None"
    by (simp add: map_of_selected_None)
  from out 1 nr 2 3 4 5 6 show ?thesis by blast
qed

theorem preprocess_output_schema_witness:
  "preprocess_data example_handler example_frame = Inr example_processed
   \<and> columns example_processed = example_features
   \<and> df_rows example_processed =
        [[IntC 1, IntC 17, IntC 0, IntC 2, IntC 6], [IntC 0, IntC 16, IntC 0, IntC 4, IntC 0]]
   \<and> map_of (cols example_frame) ''famsup'' = None
   \<and> map_of (cols example_processed) ''famsup'' = Some (replicate 2 (IntC 0))
   \<and> map_of (cols example_processed) ''name'' = None"
proof -
  from preprocess_output_schema [OF example_handler_fields(2,3) example_vocabularies, of example_frame]
  obtain out where out: "preprocess_data example_handler example_frame = Inr out"
    and c: "columns out = example_features"
    and z: "\<forall>f \<in> set example_features. map_of (cols example_frame) f = None \<longrightarrow>
           map_of (cols out) f = Some (replicate (nrows example_frame) (IntC 0))"
    and x: "\<forall>c. c \<notin> set example_features \<longrightarrow> map_of (cols out) c = None"
    by blast
  from out have o: "out = example_processed" by (simp add: example_preprocess)
  have a: "map_of (cols example_frame) ''famsup'' = None" by code_simp
  have m: "''famsup'' \<in> set example_features" by code_simp
  have n: "''name'' \<notin> set example_features" by code_simp
  have r: "nrows example_frame = 2" by (simp add: example_frame_def)
  from z m a r have "map_of (cols out) ''famsup'' = Some (replicate 2 (IntC 0))" by simp
  moreover from x n have "map_of (cols out) ''name'' = None" by simp
  ultimately show ?thesis using out c a o example_rows by simp
qed

text \<open>
  C2. For a column that has an encoder (the dict's keys are distinct, every vocabulary
  holds a category) the encoder loop raises nothing, and it replaces each value of the
  column by an integer code: the code that \<open>transform\<close> gives the value's string when
  that string is a known category, and otherwise the code of \<open>classes_[0]\<close>, the first
  category of the stored vocabulary. Preprocessing as a whole raises nothing either,
  and a column that is an expected feature reaches the output with these codes.
\<close>

theorem unknown_category_falls_back:
  assumes "distinct (map fst encs)" and "list_all (\<lambda>(c, e). classes e \<noteq> []) encs"
    and "map_of encs column = Some encoder" and "map_of (cols df) column = Some col"
  shows "\<exists>processed codes. encode_columns encs df = Inr processed
      \<and> map_of (cols processed) column = Some (map IntC codes)
      \<and> length codes = length col
      \<and> (\<forall>i < length col.
           (astype_str (col ! i) \<in> set (classes encoder) \<longrightarrow>
              transform_one encoder (astype_str (col ! i)) = Inr (codes ! i))
         \<and> (astype_str (col ! i) \<notin> set (classes encoder) \<longrightarrow>
              transform_one encoder (classes encoder ! 0) = Inr (codes ! i)))
      \<and> (\<forall>h names. label_encoders h = Some encs \<and> feature_names h = Some names \<longrightarrow>
            (\<exists>out. preprocess_data h df = Inr out
               \<and> (column \<in> set names \<longrightarrow> map_of (cols out) column = Some (map IntC codes))))"
proof -
  from encode_columns_total [OF assms(2)] obtain processed
    where p: "encode_columns encs df = Inr processed" by blast
  from encode_columns_column [OF assms(1,3,4) p] obtain ws
    where ws: "encode_column encoder col = Inr ws" and m: "map_of (cols processed) column = Some ws"
    by blast
  from ws obtain codes where c: "ws = map IntC codes" and l: "length codes = length col"
    by (rule encode_column_Inr)
  have cells: "(astype_str (col ! i) \<in> set (classes encoder) \<longrightarrow>
              transform_one encoder (astype_str (col ! i)) = Inr (codes ! i))
         \<and> (astype_str (col ! i) \<notin> set (classes encoder) \<longrightarrow>
              transform_one encoder (classes encoder ! 0) = Inr (codes ! i))"
    if "i < length col" for i
  proof -
    from encode_column_cell [OF ws that] obtain code where code: "ws ! i = IntC code"
      and k: "astype_str (col ! i) \<in> set (classes encoder) \<longrightarrow>
              transform_one encoder (astype_str (col ! i)) = Inr code"
      and u: "astype_str (col ! i) \<notin> set (classes encoder) \<longrightarrow>
              classes encoder \<noteq> [] \<and> transform_one encoder (classes encoder ! 0) = Inr code"
      by blast
    from code c l that have "code = codes ! i" by simp
    with k u show ?thesis by simp
  qed
  have pre: "\<exists>out. preprocess_data h df = Inr out
               \<and> (column \<in> set names \<longrightarrow> map_of (cols out) column = Some (map IntC codes))"
    if "label_encoders h = Some encs \<and> feature_names h = Some names" for h names
  proof -
    let ?filled = "fill_missing names processed"
    let ?out = "?filled\<lparr>cols := map (\<lambda>n. (n, the (map_of (cols ?filled) n))) names\<rparr>"
    from that have "preprocess_data h df = Inr ?out"
      by (intro preprocess_data_Inr [OF _ _ p]) simp_all
    moreover have "map_of (cols ?out) column = Some (map IntC codes)" if "column \<in> set names"
      using that fill_missing_keeps [OF m, of names] c by (simp add: map_of_selected)
    ultimately show ?thesis by blast
  qed
  from p m c l cells pre show ?thesis by blast
qed

theorem unknown_category_falls_back_witness:
  "\<exists>processed. encode_columns int_encoders int_frame = Inr processed
     \<and> map_of (cols processed) ''Medu'' = Some [IntC 4, IntC 2, IntC 0]
     \<and> map_of (cols processed) ''absences'' = Some [IntC 3, IntC 0, IntC 0]
     \<and> astype_str (IntC 4) = ''4'' \<and> astype_str (IntC 12) = ''12''
     \<and> astype_str (IntC (- 1)) = ''-1'' \<and> astype_str (IntC 205) = ''205''
     \<and> astype_str (StrC ''MS'') = ''MS''
     \<and> ''4'' \<in> set [''0'', ''1'', ''2'', ''3'', ''4'']
     \<and> ''7'' \<notin> set [''0'', ''1'', ''2'', ''3'', ''4'']
     \<and> ''12'' \<in> set [''-1'', ''0'', ''10'', ''12'', ''2'']
     \<and> ''205'' \<notin> set [''-1'', ''0'', ''10'', ''12'', ''2'']"
proof -
  let ?m = "\<lparr>classes = [''0'', ''1'', ''2'', ''3'', ''4'']\<rparr>"
  let ?a = "\<lparr>classes = [''-1'', ''0'', ''10'', ''12'', ''2'']\<rparr>"
  let ?mcol = "[IntC 4, IntC 2, IntC 7]"
  let ?acol = "[IntC 12, IntC (- 1), IntC 205]"
  have d: "distinct (map fst int_encoders)" by code_simp
  have em: "map_of int_encoders ''Medu'' = Some ?m" by code_simp
  have ea: "map_of int_encoders ''absences'' = Some ?a" by code_simp
  have cm: "map_of (cols int_frame) ''Medu'' = Some ?mcol" by code_simp
  have ca: "map_of (cols int_frame) ''absences'' = Some ?acol" by code_simp
  have s: "astype_str (IntC 4) = ''4''" "astype_str (IntC 2) = ''2''" "astype_str (IntC 7) = ''7''"
    "astype_str (IntC 12) = ''12''" "astype_str (IntC (- 1)) = ''-1''"
    "astype_str (IntC 205) = ''205''" "astype_str (StrC ''MS'') = ''MS''"
    by code_simp+
  have km: "''4'' \<in> set (classes ?m)" "''2'' \<in> set (classes ?m)" "''7'' \<notin> set (classes ?m)"
    by simp_all
  have ka: "''12'' \<in> set (classes ?a)" "''-1'' \<in> set (classes ?a)" "''205'' \<notin> set (classes ?a)"
    by simp_all
  have tm: "transform_one ?m ''4'' = Inr 4" "transform_one ?m ''2'' = Inr 2"
    "transform_one ?m (classes ?m ! 0) = Inr 0"
    by code_simp+
  have ta: "transform_one ?a ''12'' = Inr 3" "transform_one ?a ''-1'' = Inr 0"
    "transform_one ?a (classes ?a ! 0) = Inr 0"
    by code_simp+
  from unknown_category_falls_back [OF d int_vocabularies em cm]
  obtain processed codes where p: "encode_columns int_encoders int_frame = Inr processed"
    and m: "map_of (cols processed) ''Medu'' = Some (map IntC codes)"
    and l: "length codes = length ?mcol"
    and cells: "\<forall>i < length ?mcol.
           (astype_str (?mcol ! i) \<in> set (classes ?m) \<longrightarrow>
              transform_one ?m (astype_str (?mcol ! i)) = Inr (codes ! i))
         \<and> (astype_str (?mcol ! i) \<notin> set (classes ?m) \<longrightarrow>
              transform_one ?m (classes ?m ! 0) = Inr (codes ! i))"
    by blast
  from cells [rule_format, of 0] have "codes ! 0 = 4"
    unfolding nth_Cons_0 s using km(1) tm(1) by simp
  moreover from cells [rule_format, of 1] have "codes ! 1 = 2"
    unfolding One_nat_def nth_Cons_Suc nth_Cons_0 s using km(2) tm(2) by simp
  moreover from cells [rule_format, of 2] have "codes ! 2 = 0"
    unfolding numeral_2_eq_2 nth_Cons_Suc nth_Cons_0 s using km(3) tm(3) by simp
  ultimately have codes: "codes = [4, 2, 0]" using l by (intro codes3) simp_all
  from unknown_category_falls_back [OF d int_vocabularies ea ca]
  obtain processed' codes' where p': "encode_columns int_encoders int_frame = Inr processed'"
    and m': "map_of (cols processed') ''absences'' = Some (map IntC codes')"
    and l': "length codes' = length ?acol"
    and cells': "\<forall>i < length ?acol.
           (astype_str (?acol ! i) \<in> set (classes ?a) \<longrightarrow>
              transform_one ?a (astype_str (?acol ! i)) = Inr (codes' ! i))
         \<and> (astype_str (?acol ! i) \<notin> set (classes ?a) \<longrightarrow>
              transform_one ?a (classes ?a ! 0) = Inr (codes' ! i))"
    by blast
  from cells' [rule_format, of 0] have "codes' ! 0 = 3"
    unfolding nth_Cons_0 s using ka(1) ta(1) by simp
  moreover from cells' [rule_format, of 1] have "codes' ! 1 = 0"
    unfolding One_nat_def nth_Cons_Suc nth_Cons_0 s using ka(2) ta(2) by simp
  moreover from cells' [rule_format, of 2] have "codes' ! 2 = 0"
    unfolding numeral_2_eq_2 nth_Cons_Suc nth_Cons_0 s using ka(3) ta(3) by simp
  ultimately have codes': "codes' = [3, 0, 0]" using l' by (intro codes3) simp_all
  from p p' have same: "processed' = processed" by simp
  have 1: "map_of (cols processed) ''Medu'' = Some [IntC 4, IntC 2, IntC 0]"
    using m codes by simp
  have 2: "map_of (cols processed) ''absences'' = Some [IntC 3, IntC 0, IntC 0]"
    using m' codes' same by simp
  from p 1 2 s(1,4,5,6,7) km(1,3) ka(1,3) show ?thesis
    by (intro exI [of _ processed] conjI) simp_all
qed

text \<open>
  C3. Whenever single or batch prediction returns, the confidence of a row is the
  maximum of the probability row the classifier's \<open>predict_proba\<close> gave for that row
  of the preprocessed frame, taken as it is; and when the entries of that row lie in
  [0,1], so does the confidence.
\<close>

theorem confidence_is_max_probability:
  "(predict_single h df = Inr (prediction, confidence) \<longrightarrow>
      (\<exists>X m P. preprocess_data h df = Inr X \<and> model h = Some m
         \<and> predict_proba m (df_rows X) = Inr P \<and> P \<noteq> [] \<and> P ! 0 \<noteq> []
         \<and> confidence = Max (set (P ! 0))
         \<and> ((\<forall>x \<in> set (P ! 0). 0 \<le> x \<and> x \<le> 1) \<longrightarrow> 0 \<le> confidence \<and> confidence \<le> 1)))
   \<and> (predict_batch h df = Inr (predictions, confidences) \<longrightarrow>
      (\<exists>X m P. preprocess_data h df = Inr X \<and> model h = Some m
         \<and> predict_proba m (df_rows X) = Inr P \<and> length confidences = length P
         \<and> (\<forall>i < length P. P ! i \<noteq> [] \<and> confidences ! i = Max (set (P ! i))
               \<and> ((\<forall>x \<in> set (P ! i). 0 \<le> x \<and> x \<le> 1) \<longrightarrow>
                     0 \<le> confidences ! i \<and> confidences ! i \<le> 1))))"
proof (intro conjI impI)
  assume "predict_single h df = Inr (prediction, confidence)"
  then obtain X m ps P where X: "preprocess_data h df = Inr X" and m: "model h = Some m"
    and P: "predict_proba m (df_rows X) = Inr P" and ne: "P \<noteq> []"
    and c: "py_max (P ! 0) = Inr confidence"
    by (rule predict_single_cases)
  from py_max_Max [OF c] have r: "P ! 0 \<noteq> []" and mx: "confidence = Max (set (P ! 0))"
    by simp_all
  have "(\<forall>x \<in> set (P ! 0). 0 \<le> x \<and> x \<le> 1) \<longrightarrow> 0 \<le> confidence \<and> confidence \<le> 1"
    using Max_unit_interval [OF r] mx by blast
  with X m P ne r mx
  show "\<exists>X m P. preprocess_data h df = Inr X \<and> model h = Some m
         \<and> predict_proba m (df_rows X) = Inr P \<and> P \<noteq> [] \<and> P ! 0 \<noteq> []
         \<and> confidence = Max (set (P ! 0))
         \<and> ((\<forall>x \<in> set (P ! 0). 0 \<le> x \<and> x \<le> 1) \<longrightarrow> 0 \<le> confidence \<and> confidence \<le> 1)"
    by blast
next
  assume "predict_batch h df = Inr (predictions, confidences)"
  then obtain X m P where X: "preprocess_data h df = Inr X" and m: "model h = Some m"
    and P: "predict_proba m (df_rows X) = Inr P"
    and c: "map_err py_max P = Inr confidences"
    by (rule predict_batch_cases)
  have l: "length confidences = length P" by (rule map_err_length [OF c])
  have rows: "P ! i \<noteq> [] \<and> confidences ! i = Max (set (P ! i))
               \<and> ((\<forall>x \<in> set (P ! i). 0 \<le> x \<and> x \<le> 1) \<longrightarrow>
                     0 \<le> confidences ! i \<and> confidences ! i \<le> 1)"
    if "i < length P" for i
  proof -
    from map_err_nth [OF c that] have "py_max (P ! i) = Inr (confidences ! i)" .
    from py_max_Max [OF this] have r: "P ! i \<noteq> []" and mx: "confidences ! i = Max (set (P ! i))"
      by simp_all
    from Max_unit_interval [OF r] mx r show ?thesis by simp
  qed
  with X m P l
  show "\<exists>X m P. preprocess_data h df = Inr X \<and> model h = Some m
         \<and> predict_proba m (df_rows X) = Inr P \<and> length confidences = length P
         \<and> (\<forall>i < length P. P ! i \<noteq> [] \<and> confidences ! i = Max (set (P ! i))
               \<and> ((\<forall>x \<in> set (P ! i). 0 \<le> x \<and> x \<le> 1) \<longrightarrow>
                     0 \<le> confidences ! i \<and> confidences ! i \<le> 1))"
    by blast
qed

theorem confidence_is_max_probability_witness:
  "predict_single example_handler (iloc example_frame 0) = Inr (0, 0.72)
   \<and> predict_batch example_handler example_frame = Inr ([0, 1], [0.72, 0.8])
   \<and> (\<exists>X P. preprocess_data example_handler (iloc example_frame 0) = Inr X
         \<and> predict_proba example_classifier (df_rows X) = Inr P
         \<and> (0.72 :: real) = Max (set (P ! 0)))
   \<and> (\<exists>X P. preprocess_data example_handler example_frame = Inr X
         \<and> predict_proba example_classifier (df_rows X) = Inr P
         \<and> (0.72 :: real) = Max (set (P ! 0)) \<and> (0.8 :: real) = Max (set (P ! 1)))"
proof -
  note s = example_single_first and b = example_batch_prediction
  from confidence_is_max_probability
    [of example_handler "iloc example_frame 0" 0 "0.72" "[]" "[]"] s
  obtain X m P where 1: "preprocess_data example_handler (iloc example_frame 0) = Inr X"
    "model example_handler = Some m" "predict_proba m (df_rows X) = Inr P"
    "(0.72 :: real) = Max (set (P ! 0))"
    by blast
  from confidence_is_max_probability
    [of example_handler example_frame 0 0 "[0, 1]" "[0.72, 0.8]"] b
  obtain X' m' P' where 2: "preprocess_data example_handler example_frame = Inr X'"
    "model example_handler = Some m'" "predict_proba m' (df_rows X') = Inr P'"
    "length [0.72, 0.8 :: real] = length P'"
    "\<forall>i < length P'. [0.72, 0.8 :: real] ! i = Max (set (P' ! i))"
    by blast
  from 2(4) have len: "length P' = 2" by simp
  from 2(5) [rule_format, of 0] len have a: "(0.72 :: real) = Max (set (P' ! 0))" by simp
  from 2(5) [rule_format, of 1] len have c: "(0.8 :: real) = Max (set (P' ! 1))" by simp
  from 1 2(1,2,3) a c s b example_handler_fields(1) show ?thesis by auto
qed

text \<open>
  C4. For a frame whose columns are as long as its index and a classifier that answers
  row by row, a batch prediction that returns gives one prediction and one confidence
  per row, in the order of the rows, and the pair at position \<open>i\<close> is what single
  prediction returns for the one-row frame \<open>df.iloc[[i]]\<close> with the same artifacts.
\<close>

theorem batch_equals_single_rows:
  assumes "rectangular df" and "model h = Some m" and "row_aligned m"
    and "predict_batch h df = Inr (predictions, confidences)"
  shows "length predictions = nrows df \<and> length confidences = nrows df
       \<and> (\<forall>i < nrows df.
             predict_single h (iloc df i) = Inr (predictions ! i, confidences ! i))"
proof -
  from assms(4) obtain X m' P where X: "preprocess_data h df = Inr X" and "model h = Some m'"
    and ps: "predict m' (df_rows X) = Inr predictions" and P: "predict_proba m' (df_rows X) = Inr P"
    and c: "map_err py_max P = Inr confidences"
    by (rule predict_batch_cases)
  with assms(2) have ps: "predict m (df_rows X) = Inr predictions"
    and P: "predict_proba m (df_rows X) = Inr P" by simp_all
  from assms(3) ps have lp: "length predictions = length (df_rows X)"
    and rp: "\<And>i. i < length (df_rows X) \<Longrightarrow> predict m [df_rows X ! i] = Inr [predictions ! i]"
    unfolding row_aligned_def by blast+
  from assms(3) P have lP: "length P = length (df_rows X)"
    and rP: "\<And>i. i < length (df_rows X) \<Longrightarrow> predict_proba m [df_rows X ! i] = Inr [P ! i]"
    unfolding row_aligned_def by blast+
  have lc: "length confidences = length P" by (rule map_err_length [OF c])
  have single: "predict_single h (iloc df i) = Inr (predictions ! i, confidences ! i)"
    if "i < nrows df" for i
  proof -
    from preprocess_data_iloc [OF assms(1) that X]
    have Xi: "preprocess_data h (iloc df i) = Inr (iloc X i)" and n: "nrows X = nrows df"
      by simp_all
    from n that have i: "i < nrows X" by simp
    then have rows: "df_rows (iloc X i) = [df_rows X ! i]" by (rule df_rows_iloc)
    from i have il: "i < length (df_rows X)" by (simp add: length_df_rows)
    from map_err_nth [OF c] il lP have mx: "py_max (P ! i) = Inr (confidences ! i)" by simp
    show ?thesis
      by (simp add: predict_single_def Xi the_model_def assms(2) rows rp [OF il] rP [OF il]
          index0_def mx)
  qed
  from lp lP lc single show ?thesis
    by (simp add: length_df_rows preprocess_data_nrows [OF X])
qed

theorem batch_equals_single_rows_witness:
  "rectangular example_frame \<and> row_aligned example_classifier
   \<and> predict_batch example_handler example_frame = Inr ([0, 1], [0.72, 0.8])
   \<and> predict_single example_handler (iloc example_frame 0) = Inr (0, 0.72)
   \<and> predict_single example_handler (iloc example_frame 1) = Inr (1, 0.8)"
proof -
  from batch_equals_single_rows [OF example_rectangular example_handler_fields(1)
      example_row_aligned example_batch_prediction]
  have all: "\<forall>i < nrows example_frame.
      predict_single example_handler (iloc example_frame i) = Inr ([0, 1] ! i, [0.72, 0.8] ! i)"
    by blast
  have n: "nrows example_frame = 2" by (simp add: example_frame_def)
  from all [rule_format, of 0] n
  have a: "predict_single example_handler (iloc example_frame 0) = Inr (0, 0.72)" by simp
  from all [rule_format, of 1] n
  have b: "predict_single example_handler (iloc example_frame 1) = Inr (1, 0.8)" by simp
  from a b example_rectangular example_row_aligned example_batch_prediction
  show ?thesis by simp
qed




text \<open>
  C6, as amended. The rows of predicted class 0 fall into exactly one of the High and
  Medium tiers: the two tiers are disjoint and together hold exactly the rows of
  class 0. The Low-confidence set does not depend on the predicted class (replacing
  every predicted class by any \<open>k\<close> selects the same rows); a Low-confidence row is in
  the Medium tier when its class is 0 and in neither tier otherwise, and the
  Low-confidence set never meets the High tier.
\<close>

theorem risk_tiers:
  fixes df :: "'a scored_scheme list"
  shows "(\<forall>r \<in> set df. Predicted_Performance r = 0 \<longrightarrow>
            (r \<in> set (high_risk df)) \<noteq> (r \<in> set (medium_risk df)))
       \<and> set (high_risk df) \<inter> set (medium_risk df) = {}
       \<and> set (high_risk df) \<union> set (medium_risk df) = {r \<in> set df. Predicted_Performance r = 0}
       \<and> length (high_risk df) + length (medium_risk df)
           = length (filter (\<lambda>r. Predicted_Performance r = 0) df)
       \<and> low_confidence (map (Predicted_Performance_update (\<lambda>_. k)) df)
           = map (Predicted_Performance_update (\<lambda>_. k)) (low_confidence df)
       \<and> set (low_confidence df) \<inter> set (high_risk df) = {}
       \<and> (\<forall>r \<in> set (low_confidence df).
            (r \<in> set (medium_risk df)) = (Predicted_Performance r = 0))"
proof -
  have len: "length (high_risk df) + length (medium_risk df)
           = length (filter (\<lambda>r. Predicted_Performance r = 0) df)"
    unfolding high_risk_def medium_risk_def by (induction df) auto
  have lc: "low_confidence (map (Predicted_Performance_update (\<lambda>_. k)) df)
           = map (Predicted_Performance_update (\<lambda>_. k)) (low_confidence df)"
    unfolding low_confidence_def by (induction df) auto
  show ?thesis
    using len lc unfolding high_risk_def medium_risk_def low_confidence_def
    by (intro conjI) (auto)
qed

theorem risk_tiers_witness:
  "high_risk example_batch = [\<lparr>Predicted_Performance = 0, Confidence = 0.72\<rparr>]
   \<and> medium_risk example_batch =
        [\<lparr>Predicted_Performance = 0, Confidence = 0.55\<rparr>, \<lparr>Predicted_Performance = 0, Confidence = 0.7\<rparr>]
   \<and> low_confidence example_batch =
        [\<lparr>Predicted_Performance = 0, Confidence = 0.55\<rparr>, \<lparr>Predicted_Performance = 1, Confidence = 0.55\<rparr>]
   \<and> set (high_risk example_batch) \<inter> set (medium_risk example_batch) = {}
   \<and> set (low_confidence example_batch) \<inter> set (high_risk example_batch) = {}
   \<and> length (high_risk example_batch) + length (medium_risk example_batch) = 3"
proof -
  have h: "high_risk example_batch = [\<lparr>Predicted_Performance = 0, Confidence = 0.72\<rparr>]"
    by (simp add: high_risk_def example_batch_def)
  have m: "medium_risk example_batch =
        [\<lparr>Predicted_Performance = 0, Confidence = 0.55\<rparr>, \<lparr>Predicted_Performance = 0, Confidence = 0.7\<rparr>]"
    by (simp add: medium_risk_def example_batch_def)
  have l: "low_confidence example_batch =
        [\<lparr>Predicted_Performance = 0, Confidence = 0.55\<rparr>, \<lparr>Predicted_Performance = 1, Confidence = 0.55\<rparr>]"
    by (simp add: low_confidence_def example_batch_def)
  from risk_tiers [of example_batch 0]
  have "set (high_risk example_batch) \<inter> set (medium_risk example_batch) = {}"
    and "set (low_confidence example_batch) \<inter> set (high_risk example_batch) = {}"
    by blast+
  then show ?thesis using h m l by simp
qed

text \<open>
  C6 as stated lets the Low-confidence set overlap either tier. No batch has a row in
  both the Low-confidence set and the High tier: a confidence below 0.6 is not above
  0.7.
\<close>

theorem low_confidence_overlaps_high_risk_counterexample:
  "\<not> (\<exists>(df :: scored list) r. r \<in> set (low_confidence df) \<and> r \<in> set (high_risk df))"
  by (auto simp: low_confidence_def high_risk_def)

text \<open>
  C7, as amended. Preprocessing has no load check of its own and no LoadError exists.
  When the encoders mapping is unavailable (\<open>None\<close>: after \<open>load_models\<close> found no
  classifier file, or could not load the encoders file) it raises AttributeError before
  it touches a column; when the feature list is unavailable it raises as well and
  returns no frame. An encoders mapping and a feature list that are loaded but empty
  raise nothing: preprocessing returns the input's rows with no column.
\<close>

theorem preprocess_without_artifacts:
  "(label_encoders h = None \<longrightarrow> preprocess_data h df = Inl AttributeError)
   \<and> (feature_names h = None \<longrightarrow> (\<exists>e. preprocess_data h df = Inl e))
   \<and> ((\<forall>m. model_file files \<noteq> Stored m) \<longrightarrow>
         preprocess_data (WebModelHandler files) df = Inl AttributeError)
   \<and> ((\<forall>encoders. encoders_file files \<noteq> Stored encoders) \<longrightarrow>
         preprocess_data (WebModelHandler files) df = Inl AttributeError)
   \<and> (label_encoders h = Some [] \<and> feature_names h = Some [] \<longrightarrow>
         preprocess_data h df = Inr (df\<lparr>cols := []\<rparr>))"
proof (intro conjI impI)
  assume "label_encoders h = None"
  then show "preprocess_data h df = Inl AttributeError" by (rule preprocess_no_encoders)
next
  assume "feature_names h = None"
  then show "\<exists>e. preprocess_data h df = Inl e" by (rule preprocess_no_features)
next
  assume "\<forall>m. model_file files \<noteq> Stored m"
  then have "label_encoders (WebModelHandler files) = None"
    by (simp add: load_models_encoders split: stored.splits)
  then show "preprocess_data (WebModelHandler files) df = Inl AttributeError"
    by (rule preprocess_no_encoders)
next
  assume "\<forall>encoders. encoders_file files \<noteq> Stored encoders"
  then have "label_encoders (WebModelHandler files) = None"
    by (simp add: load_models_encoders split: stored.splits)
  then show "preprocess_data (WebModelHandler files) df = Inl AttributeError"
    by (rule preprocess_no_encoders)
next
  assume "label_encoders h = Some [] \<and> feature_names h = Some []"
  then show "preprocess_data h df = Inr (df\<lparr>cols := []\<rparr>)"
    by (simp add: preprocess_empty_schema)
qed

theorem preprocess_without_artifacts_witness:
  "preprocess_data (WebModelHandler no_files) example_frame = Inl AttributeError
   \<and> model (WebModelHandler only_model_file) = Some example_classifier
   \<and> preprocess_data (WebModelHandler only_model_file) example_frame = Inl AttributeError
   \<and> (\<exists>e. preprocess_data no_features_handler example_frame = Inl e)
   \<and> preprocess_data empty_schema_handler bad_first = Inr (bad_first\<lparr>cols := []\<rparr>)"
proof -
  note t = preprocess_without_artifacts
  have a: "\<forall>m. model_file no_files \<noteq> Stored m" by (simp add: no_files_def)
  have b: "\<forall>encoders. encoders_file only_model_file \<noteq> Stored encoders"
    by (simp add: only_model_file_def)
  have c: "feature_names no_features_handler = None" by (simp add: no_features_handler_def)
  have m: "model (WebModelHandler only_model_file) = Some example_classifier"
    by (simp add: load_models_model only_model_file_def)
  have 1: "preprocess_data (WebModelHandler no_files) example_frame = Inl AttributeError"
    by (rule t [THEN conjunct2, THEN conjunct2, THEN conjunct1, THEN mp, OF a])
  have 2: "preprocess_data (WebModelHandler only_model_file) example_frame = Inl AttributeError"
    by (rule t [THEN conjunct2, THEN conjunct2, THEN conjunct2, THEN conjunct1, THEN mp, OF b])
  have 3: "\<exists>e. preprocess_data no_features_handler example_frame = Inl e"
    by (rule t [THEN conjunct2, THEN conjunct1, THEN mp, OF c])
  have 4: "preprocess_data empty_schema_handler bad_first = Inr (bad_first\<lparr>cols := []\<rparr>)"
    by (rule t [THEN conjunct2, THEN conjunct2, THEN conjunct2, THEN conjunct2, THEN mp])
       (simp add: empty_schema_fields)
  from 1 m 2 3 4 show ?thesis by (intro conjI)
qed

text \<open>
  C7 as stated has preprocessing fail with a LoadError when the encoders mapping or the
  feature list is empty. With both loaded and empty it returns a frame.
\<close>

theorem empty_schema_raises_no_load_error_counterexample:
  "label_encoders empty_schema_handler = Some []
   \<and> feature_names empty_schema_handler = Some []
   \<and> preprocess_data empty_schema_handler example_frame = Inr (example_frame\<lparr>cols := []\<rparr>)"
  using empty_schema_fields preprocess_empty_schema [OF empty_schema_fields, of example_frame]
  by (intro conjI)

text \<open>
  C8, as amended. When the classifier raises on the preprocessed frame, batch and single
  prediction raise that same exception, unchanged: no prediction is returned for any
  row, so none is substituted and no row is skipped, and nothing is added that names a
  row.
\<close>

theorem classifier_error_propagates:
  assumes "preprocess_data h df = Inr X" and "model h = Some m"
  shows "(predict m (df_rows X) = Inl e \<longrightarrow>
            predict_batch h df = Inl e \<and> predict_single h df = Inl e)
       \<and> (predict m (df_rows X) = Inr ps \<and> predict_proba m (df_rows X) = Inl e \<longrightarrow>
            predict_batch h df = Inl e)"
  using assms by (simp add: predict_batch_def predict_single_def the_model_def)

theorem classifier_error_propagates_witness:
  "preprocess_data example_handler bad_first = Inr bad_first_processed
   \<and> model example_handler = Some example_classifier
   \<and> predict example_classifier (df_rows bad_first_processed) = Inl ValueError
   \<and> predict_batch example_handler bad_first = Inl ValueError
   \<and> predict_single example_handler bad_first = Inl ValueError"
  using classifier_error_propagates [OF bad_first_preprocess example_handler_fields(1),
      of ValueError "[]"] bad_first_preprocess bad_first_rejected example_handler_fields(1)
  by simp

text \<open>
  C8 as stated has the error identify the offending row. Two batches whose offending
  rows are row 0 and row 1 (as the single-row calls show) get the same exception.
\<close>

theorem prediction_error_names_no_row_counterexample:
  "predict_batch example_handler bad_first = Inl ValueError
   \<and> predict_batch example_handler bad_second = Inl ValueError
   \<and> predict_single example_handler (iloc bad_first 0) = Inl ValueError
   \<and> predict_single example_handler (iloc bad_first 1) = Inr (1, 0.8)
   \<and> predict_single example_handler (iloc bad_second 0) = Inr (0, 0.72)
   \<and> predict_single example_handler (iloc bad_second 1) = Inl ValueError"
proof -
  have 1: "predict_batch example_handler bad_first = Inl ValueError" by code_simp
  have 2: "predict_batch example_handler bad_second = Inl ValueError" by code_simp
  have 3: "predict_single example_handler (iloc bad_first 0) = Inl ValueError" by code_simp
  have 4: "predict_single example_handler (iloc bad_first 1) = Inr (1, 0.8)" by code_simp
  have 5: "predict_single example_handler (iloc bad_second 0) = Inr (0, 0.72)" by code_simp
  have 6: "predict_single example_handler (iloc bad_second 1) = Inl ValueError" by code_simp
  from 1 2 3 4 5 6 show ?thesis by simp
qed

text \<open>
  C9. For every predicted class and every student record whose numeric fields hold
  ints, both recommendation generators return what the rule table yields when each
  rule is evaluated on its own and every applicable rule emits its message: for class 0
  with \<open>studytime < 3\<close> the study-time message is among them, with \<open>famsup == 'no'\<close>
  the family message is, and when no rule applies the result is exactly the one generic
  message.
\<close>

theorem recommendations_fire_all_applicable_rules:
  assumes "numeric_fields d"
  shows "get_recommendations p d = Inr (all_rules_fire p d)
       \<and> PredictionWindow_get_recommendations p d = Inr (all_rules_fire p d)
       \<and> (\<forall>(applies, msg) \<in> set rule_table. applies p d \<longrightarrow> msg \<in> set (all_rules_fire p d))
       \<and> (p = 0 \<and> int_field d ''studytime'' < 3 \<longrightarrow> rec_studytime \<in> set (all_rules_fire p d))
       \<and> (p = 0 \<and> str_field d ''famsup'' = StrC ''no'' \<longrightarrow> rec_famsup \<in> set (all_rules_fire p d))
       \<and> ((\<forall>(applies, msg) \<in> set rule_table. \<not> applies p d) \<longrightarrow> all_rules_fire p d = [rec_monitor])"
proof -
  have fired_mem: "msg \<in> set (fired p d)" if "(applies, msg) \<in> set rule_table" "applies p d" for applies msg
    using that unfolding fired_def by force
  have mem: "msg \<in> set (all_rules_fire p d)" if "(applies, msg) \<in> set rule_table" "applies p d" for applies msg
    using fired_mem [OF that] unfolding all_rules_fire_def by auto
  have none: "all_rules_fire p d = [rec_monitor]" if "\<forall>(applies, msg) \<in> set rule_table. \<not> applies p d"
  proof -
    have "filter (\<lambda>(applies, msg). applies p d) rule_table = []"
      using that by (auto simp: filter_empty_conv)
    then show ?thesis by (simp add: all_rules_fire_def fired_def)
  qed
  have st: "rec_studytime \<in> set (all_rules_fire p d)" if "p = 0 \<and> int_field d ''studytime'' < 3"
    by (rule mem [where applies = "\<lambda>p d. p = 0 \<and> int_field d ''studytime'' < 3"])
       (simp_all add: rule_table_def that)
  have fs: "rec_famsup \<in> set (all_rules_fire p d)" if "p = 0 \<and> str_field d ''famsup'' = StrC ''no''"
    by (rule mem [where applies = "\<lambda>p d. p = 0 \<and> str_field d ''famsup'' = StrC ''no''"])
       (simp_all add: rule_table_def that)
  show ?thesis
    using web_recs [OF assms] gui_recs [OF assms] mem none st fs by blast
qed

theorem recommendations_fire_all_applicable_rules_witness:
  "numeric_fields example_student
   \<and> get_recommendations 0 example_student = Inr [rec_studytime, rec_famsup]
   \<and> PredictionWindow_get_recommendations 0 example_student = Inr [rec_studytime, rec_famsup]
   \<and> numeric_fields diligent_student
   \<and> get_recommendations 0 diligent_student = Inr [rec_monitor]
   \<and> get_recommendations 1 diligent_student = Inr [rec_continue, rec_leadership, rec_balance]"
proof -
  have "all_rules_fire 1 diligent_student = [rec_continue, rec_leadership, rec_balance]"
    by (simp add: all_rules_fire_def fired_def rule_table_def int_field_def str_field_def
      dict_get_def diligent_student_def)
  then show ?thesis
    using recommendations_fire_all_applicable_rules [OF numeric_example, of 0]
      recommendations_fire_all_applicable_rules [OF numeric_diligent, of 0]
      recommendations_fire_all_applicable_rules [OF numeric_diligent, of 1]
      numeric_example numeric_diligent fire_example fire_diligent
    by simp
qed

text \<open>
  C10. The recommendation generator of the desktop front-end and the one of the web
  front-end return the same result, the same strings in the same order or the same
  exception, on every predicted class and student record.
\<close>

theorem gui_and_web_recommendations_equal:
  "PredictionWindow_get_recommendations prediction student_data =
     get_recommendations prediction student_data"
  by (simp add: PredictionWindow_get_recommendations_def get_recommendations_def)

end
